theory Spec2Isabelle
  imports Complex_Main "HOL-Library.Sublist"
begin

section \<open>JavaScript strings\<close>

text \<open>
  A JavaScript string is a sequence of UTF-16 code units.  The regular expressions of
  \<^verbatim>\<open>main.ts\<close> work on code units and treat four of them as line terminators, two
  of which lie outside Latin-1, so a code unit is a natural number here and a string a
  list of them.  \<open>js\<close> turns an ASCII literal into such a string.
\<close>

type_synonym jstring = "nat list"

definition js :: "string \<Rightarrow> jstring" where
  "js s = map of_char s"

text \<open>The line terminators of ECMAScript: LF, CR, LS (U+2028) and PS (U+2029).  The
  pattern character \<^verbatim>\<open>.\<close> matches every code unit but these, and with the flag
  \<^verbatim>\<open>m\<close> the assertions \<^verbatim>\<open>^\<close> and \<^verbatim>\<open>$\<close> hold next to them.\<close>

definition isLineTerminator :: "nat \<Rightarrow> bool" where
  "isLineTerminator u \<longleftrightarrow> u = 10 \<or> u = 13 \<or> u = 8232 \<or> u = 8233"

text \<open>\<^verbatim>\<open>Array.prototype.join\<close> and \<^verbatim>\<open>String.prototype.split\<close> with a one-unit
  separator (the source only splits on \<^verbatim>\<open>"\n"\<close>).\<close>

fun joinWith :: "jstring \<Rightarrow> jstring list \<Rightarrow> jstring" where
  "joinWith sep [] = []"
| "joinWith sep [x] = x"
| "joinWith sep (x # y # ys) = x @ sep @ joinWith sep (y # ys)"

fun splitOn :: "nat \<Rightarrow> jstring \<Rightarrow> jstring list" where
  "splitOn d [] = [] # []"
| "splitOn d (c # cs) =
     (if c = d then [] # splitOn d cs
      else (case splitOn d cs of
              [] \<Rightarrow> [c] # []
            | l # ls \<Rightarrow> (c # l) # ls))"


section \<open>Data model\<close>

text \<open>
  \<^verbatim>\<open>types.ts\<close> is not among the sources; the shapes below are the fields that
  \<^verbatim>\<open>main.ts\<close> reads.  An element of \<^verbatim>\<open>content.parts\<close> is a string, an object
  with optional \<^verbatim>\<open>content_type\<close> and \<^verbatim>\<open>text\<close>, \<^verbatim>\<open>null\<close> (whose \<^verbatim>\<open>typeof\<close>
  is \<^verbatim>\<open>"object"\<close> too), or a value of another type (which \<^verbatim>\<open>formatMessage\<close>
  filters out).  The author's \<open>role\<close> is \<open>None\<close> when the author object has no key
  \<^verbatim>\<open>role\<close>; a key that is there holds a string or some other value (\<^verbatim>\<open>null\<close>, a
  number).  An absent or empty string field that the source tests for truthiness is the
  empty list.
\<close>

datatype part =
    PString jstring
  | PObject (part_content_type: "jstring option") (part_text: "jstring option")
  | PNull
  | POther

datatype role_value = RoleString jstring | RoleOther

record author =
  role :: "role_value option"

record message_content =
  content_type :: "jstring option"
  parts :: "part list option"

record ChatMessage =
  msg_id :: jstring
  msg_create_time :: "real option"
  msg_author :: "author option"
  msg_content :: "message_content option"

record node =
  node_id :: jstring
  message :: "ChatMessage option"

text \<open>\<^verbatim>\<open>chat.mapping\<close> is an object; the list holds its entries in the order in which
  \<^verbatim>\<open>for ... in\<close> and \<^verbatim>\<open>Object.values\<close> enumerate them.\<close>

record Chat =
  chat_id :: jstring
  title :: jstring
  create_time :: real
  update_time :: real
  mapping :: "(jstring \<times> node) list"

section \<open>Helpers of \<^verbatim>\<open>utils.ts\<close> and values of the host\<close>

text \<open>
  \<^verbatim>\<open>utils.ts\<close> and the plugin manifest are not among the sources.  The functions of
  \<^verbatim>\<open>main.ts\<close> take what they import from there as fields of an environment:
  every theorem holds for each environment, under the hypotheses it states.  The helpers
  are taken to return a value: an error thrown inside one of them is not modelled.
  \<^item> \<open>ensureFolderExists\<close> returns \<^verbatim>\<open>(success, error)\<close> and the vault it leaves.
  \<^item> \<open>dateParts t\<close> is the year, the two-digit month and the two-digit day of
    \<^verbatim>\<open>new Date(t * 1000)\<close> in the local time zone.
  \<^item> \<open>io_error op path\<close> is the message of the error with which the vault rejects
    \<^verbatim>\<open>read\<close>, \<^verbatim>\<open>modify\<close> or \<^verbatim>\<open>create\<close> at that path, \<open>None\<close> when the call
    succeeds.
  \<^item> \<open>now\<close> is the reading of \<^verbatim>\<open>Date.now() / 1000\<close>.
  The vault maps a path to the file (with its text) or the folder found there.
\<close>

datatype ts_format = FDate | FTime | FPrefix

datatype vnode = TFile jstring | TFolder

type_synonym vault = "jstring \<rightharpoonup> vnode"

datatype io_op = VaultRead | VaultModify | VaultCreate

record PluginSettings =
  archiveFolder :: jstring
  addDatePrefix :: bool
  dateFormat :: jstring

record env =
  formatTimestamp :: "real \<Rightarrow> ts_format \<Rightarrow> jstring"
  formatTitle :: "jstring \<Rightarrow> jstring"
  isValidMessage :: "ChatMessage option \<Rightarrow> bool"
  generateFileName :: "jstring \<Rightarrow> jstring"
  generateUniqueFileName :: "jstring \<Rightarrow> vault \<Rightarrow> jstring"
  doesFilePathExist :: "jstring \<Rightarrow> vault \<Rightarrow> bool"
  ensureFolderExists :: "jstring \<Rightarrow> vault \<Rightarrow> (bool \<times> jstring) \<times> vault"
  dateParts :: "real \<Rightarrow> jstring \<times> jstring \<times> jstring"
  io_error :: "io_op \<Rightarrow> jstring \<Rightarrow> jstring option"
  now :: real
  manifest_id :: jstring
  settings :: PluginSettings

section \<open>Note renderer\<close>

text \<open>A call either returns or throws an error with a message; where a state is passed,
  the state that the call leaves is kept in both cases.\<close>

datatype 'a result = Ok 'a | Throw jstring

definition timeStr :: "env \<Rightarrow> real \<Rightarrow> jstring" where
  \<comment> \<open>the template \<^verbatim>\<open>`${formatTimestamp(t, "date")} at ${formatTimestamp(t, "time")}`\<close>\<close>
  "timeStr E t = formatTimestamp E t FDate @ js '' at '' @ formatTimestamp E t FTime"

definition authorName :: "ChatMessage \<Rightarrow> jstring" where
  \<comment> \<open>\<^verbatim>\<open>"role" in message.author\<close>, then \<^verbatim>\<open>message.author.role === "user"\<close>\<close>
  "authorName m =
     (case msg_author m of
        None \<Rightarrow> js ''Unknown''
      | Some a \<Rightarrow>
          (case role a of
             None \<Rightarrow> js ''Unknown''
           | Some v \<Rightarrow> if v = RoleString (js ''user'') then js ''User'' else js ''ChatGPT''))"

text \<open>The callback of \<^verbatim>\<open>parts.filter\<close> reads \<^verbatim>\<open>part.content_type\<close> of every part
  whose \<^verbatim>\<open>typeof\<close> is \<^verbatim>\<open>"object"\<close>; on \<^verbatim>\<open>null\<close> that read throws a
  \<^verbatim>\<open>TypeError\<close>.  \<open>filterParts\<close> is the filter over the array: it stops at the
  first part on which the callback throws.\<close>

definition nullPartError :: jstring where
  "nullPartError =
     js ''Cannot read properties of null (reading '' @ [39] @ js ''content_type'' @ [39] @ js '')''"

fun keepPart :: "part \<Rightarrow> bool result" where
  "keepPart (PString s) = Ok True"
| "keepPart (PObject ct tx) =
     Ok (ct = Some (js ''audio_transcription'') \<or> (case tx of None \<Rightarrow> False | Some t \<Rightarrow> t \<noteq> []))"
| "keepPart PNull = Throw nullPartError"
| "keepPart POther = Ok False"

fun filterParts :: "part list \<Rightarrow> part list result" where
  "filterParts [] = Ok []"
| "filterParts (p # ps) =
     (case keepPart p of
        Throw e \<Rightarrow> Throw e
      | Ok keep \<Rightarrow>
          (case filterParts ps of
             Throw e \<Rightarrow> Throw e
           | Ok kept \<Rightarrow> Ok (if keep then p # kept else kept)))"

fun partText :: "part \<Rightarrow> jstring" where
  \<comment> \<open>the callback of \<^verbatim>\<open>map\<close>, applied to the parts that were kept\<close>
  "partText (PString s) = s"
| "partText (PObject ct tx) = (case tx of None \<Rightarrow> [] | Some t \<Rightarrow> t)"
| "partText PNull = []"
| "partText POther = []"

definition quoteLines :: "jstring \<Rightarrow> part list \<Rightarrow> jstring" where
  \<comment> \<open>what \<^verbatim>\<open>formatMessage\<close> appends for the parts that the filter kept\<close>
  "quoteLines q kept =
     (let messageText = joinWith [10] (map partText kept)
      in if messageText \<noteq> []
         then joinWith [10] (map (\<lambda>line. q @ js '' '' @ line) (splitOn 10 messageText))
         else q @ js '' [No text content]'')"

definition messageBody :: "jstring \<Rightarrow> ChatMessage \<Rightarrow> jstring result" where
  "messageBody q m =
     (case msg_content m of
        None \<Rightarrow> Ok (q @ js '' [No content]'')
      | Some c \<Rightarrow>
          (case parts c of
             None \<Rightarrow> Ok (q @ js '' [No content]'')
           | Some ps \<Rightarrow>
               (case filterParts ps of
                  Throw e \<Rightarrow> Throw e
                | Ok kept \<Rightarrow> Ok (quoteLines q kept))))"

definition uidMarker :: "ChatMessage \<Rightarrow> jstring" where
  \<comment> \<open>\<^verbatim>\<open>`\n<!-- UID: ${message.id || "unknown"} -->\n`\<close>\<close>
  "uidMarker m =
     [10] @ js ''<!-- UID: '' @ (if msg_id m = [] then js ''unknown'' else msg_id m) @ js '' -->'' @ [10]"

definition messageTime :: "env \<Rightarrow> ChatMessage \<Rightarrow> jstring" where
  \<comment> \<open>both stamps are taken of \<^verbatim>\<open>message.create_time || Date.now() / 1000\<close>\<close>
  "messageTime E m =
     timeStr E (case msg_create_time m of
                  None \<Rightarrow> now E
                | Some x \<Rightarrow> if x = 0 then now E else x)"

definition headingLevel :: "ChatMessage \<Rightarrow> jstring" where
  "headingLevel m = (if authorName m = js ''User'' then js ''###'' else js ''####'')"

definition quoteChar :: "ChatMessage \<Rightarrow> jstring" where
  "quoteChar m = (if authorName m = js ''User'' then js ''>'' else js ''>>'')"

definition formatMessage :: "env \<Rightarrow> ChatMessage option \<Rightarrow> jstring result" where
  "formatMessage E msg =
     (case msg of
        None \<Rightarrow> Ok []
      | Some m \<Rightarrow>
          (case messageBody (quoteChar m) m of
             Throw e \<Rightarrow> Throw e
           | Ok body \<Rightarrow>
               Ok (headingLevel m @ js '' '' @ authorName m @ js '', on '' @ messageTime E m
                     @ js '';'' @ [10]
                   @ body
                   @ uidMarker m
                   @ (if authorName m = js ''ChatGPT'' then [10] @ js ''---'' @ [10] else [])
                   @ [10, 10])))"

definition generateMessagesContent :: "env \<Rightarrow> Chat \<Rightarrow> jstring result" where
  "generateMessagesContent E chat =
     foldl (\<lambda>acc (messageId, messageObj).
              case acc of
                Throw e \<Rightarrow> Throw e
              | Ok messagesContent \<Rightarrow>
                  if message messageObj \<noteq> None \<and> isValidMessage E (message messageObj)
                  then (case formatMessage E (message messageObj) of
                          Throw e \<Rightarrow> Throw e
                        | Ok block \<Rightarrow> Ok (messagesContent @ block))
                  else Ok messagesContent)
           (Ok []) (mapping chat)"

definition generateHeader :: "env \<Rightarrow> jstring \<Rightarrow> jstring \<Rightarrow> jstring \<Rightarrow> jstring \<Rightarrow> jstring" where
  "generateHeader E ttl conversationId createTimeStr updateTimeStr =
     js ''---'' @ [10]
     @ js ''nexus: '' @ manifest_id E @ [10]
     @ js ''provider: chatgpt'' @ [10]
     @ js ''aliases: '' @ [34] @ ttl @ [34] @ [10]
     @ js ''conversation_id: '' @ conversationId @ [10]
     @ js ''create_time: '' @ createTimeStr @ [10]
     @ js ''update_time: '' @ updateTimeStr @ [10]
     @ js ''---'' @ [10]
     @ [10]
     @ js ''# Title: '' @ ttl @ [10]
     @ [10]
     @ js ''Created: '' @ createTimeStr @ [10]
     @ js ''Last Updated: '' @ updateTimeStr @ [10, 10]
     @ [10]"

definition generateMarkdownContent :: "env \<Rightarrow> Chat \<Rightarrow> jstring result" where
  "generateMarkdownContent E chat =
     (let content = generateHeader E (formatTitle E (title chat)) (chat_id chat)
                      (timeStr E (create_time chat)) (timeStr E (update_time chat))
      in case generateMessagesContent E chat of
           Throw e \<Rightarrow> Throw e
         | Ok messagesContent \<Rightarrow> Ok (content @ messagesContent))"

text \<open>
  Names for what the renderer produces when it returns.  \<open>validMessages\<close> are the
  messages that pass the test of the loop in \<^verbatim>\<open>generateMessagesContent\<close>, in order;
  \<open>noNullPart m\<close> says that \<^verbatim>\<open>content.parts\<close> of \<open>m\<close>, if there, holds no
  \<^verbatim>\<open>null\<close>; \<open>messageText\<close> is the text that \<^verbatim>\<open>formatMessage\<close> joins from the parts
  and \<open>messageTextOf\<close> that text for a message (empty when a placeholder is printed);
  \<open>messageBlock\<close> is the block of one message and \<open>renderedNote\<close> the full note.
\<close>

definition validMessages :: "env \<Rightarrow> Chat \<Rightarrow> ChatMessage list" where
  "validMessages E chat =
     concat (map (\<lambda>(messageId, messageObj).
                    case message messageObj of
                      None \<Rightarrow> []
                    | Some m \<Rightarrow> if isValidMessage E (Some m) then [m] else [])
                 (mapping chat))"

definition noNullPart :: "ChatMessage \<Rightarrow> bool" where
  "noNullPart m =
     (case msg_content m of
        None \<Rightarrow> True
      | Some c \<Rightarrow> (case parts c of None \<Rightarrow> True | Some ps \<Rightarrow> list_all (\<lambda>p. p \<noteq> PNull) ps))"

definition messageText :: "part list \<Rightarrow> jstring" where
  "messageText ps = joinWith [10] (map partText (filter (\<lambda>p. keepPart p = Ok True) ps))"

definition messageTextOf :: "ChatMessage \<Rightarrow> jstring" where
  "messageTextOf m =
     (case msg_content m of
        None \<Rightarrow> []
      | Some c \<Rightarrow> (case parts c of None \<Rightarrow> [] | Some ps \<Rightarrow> messageText ps))"

definition blockBody :: "ChatMessage \<Rightarrow> jstring" where
  "blockBody m =
     (case msg_content m of
        None \<Rightarrow> quoteChar m @ js '' [No content]''
      | Some c \<Rightarrow>
          (case parts c of
             None \<Rightarrow> quoteChar m @ js '' [No content]''
           | Some ps \<Rightarrow> quoteLines (quoteChar m) (filter (\<lambda>p. keepPart p = Ok True) ps)))"

definition messageBlock :: "env \<Rightarrow> ChatMessage \<Rightarrow> jstring" where
  "messageBlock E m =
     headingLevel m @ js '' '' @ authorName m @ js '', on '' @ messageTime E m @ js '';'' @ [10]
     @ blockBody m
     @ uidMarker m
     @ (if authorName m = js ''ChatGPT'' then [10] @ js ''---'' @ [10] else [])
     @ [10, 10]"

definition renderedNote :: "env \<Rightarrow> Chat \<Rightarrow> jstring" where
  "renderedNote E chat =
     generateHeader E (formatTitle E (title chat)) (chat_id chat)
       (timeStr E (create_time chat)) (timeStr E (update_time chat))
     @ concat (map (messageBlock E) (validMessages E chat))"

section \<open>Message merger\<close>

text \<open>
  \<^verbatim>\<open>extractMessageUIDsFromNote\<close> runs \<^verbatim>\<open>/<!-- UID: (.*?) -->/g\<close> over the note.
  At a position where the opening literal matches, the lazy group takes the shortest run
  of code units other than line terminators that is followed by \<^verbatim>\<open>" -->"\<close>; the
  search goes on after the match, or at the next position when there is none.
\<close>

fun lazyUntil :: "jstring \<Rightarrow> jstring \<Rightarrow> (jstring \<times> jstring) option" where
  "lazyUntil close [] = (if close = [] then Some ([], []) else None)"
| "lazyUntil close (c # cs) =
     (if prefix close (c # cs) then Some ([], drop (length close) (c # cs))
      else if isLineTerminator c then None
      else (case lazyUntil close cs of
              None \<Rightarrow> None
            | Some (cap, rest) \<Rightarrow> Some (c # cap, rest)))"

function extractMessageUIDsFromNote :: "jstring \<Rightarrow> jstring list" where
  "extractMessageUIDsFromNote [] = []"
| "extractMessageUIDsFromNote (c # cs) =
     (if prefix (js ''<!-- UID: '') (c # cs)
      then (case lazyUntil (js '' -->'') (drop 10 (c # cs)) of
              None \<Rightarrow> extractMessageUIDsFromNote cs
            | Some (cap, rest) \<Rightarrow> cap # extractMessageUIDsFromNote rest)
      else extractMessageUIDsFromNote cs)"
  by pat_completeness auto
termination
proof (relation "measure length")
  fix c cs x2 x y
  assume a: "lazyUntil (js '' -->'') (drop 10 (c # cs)) = Some x2" "(x, y) = x2"
  have shorter: "lazyUntil close s = Some (cap, rest) \<Longrightarrow> length rest \<le> length s"
    for close s cap rest
    by (induction s arbitrary: cap) (auto split: if_splits option.splits)
  from a have "length y \<le> length (drop 10 (c # cs))"
    using shorter by metis
  then show "(y, c # cs) \<in> measure length" by simp
qed auto

definition getNewMessages :: "env \<Rightarrow> Chat \<Rightarrow> jstring list \<Rightarrow> ChatMessage option list" where
  "getNewMessages E chat existingMessageIds =
     map (\<lambda>(k, n). message n)
       (filter (\<lambda>(k, n). node_id n \<noteq> [] \<and> node_id n \<notin> set existingMessageIds
                         \<and> isValidMessage E (message n))
          (mapping chat))"

text \<open>\<^verbatim>\<open>formatNewMessages\<close>: \<open>formatEach\<close> is the \<^verbatim>\<open>map\<close> over the messages, which
  stops at the first message on which \<^verbatim>\<open>formatMessage\<close> throws.\<close>

fun formatEach :: "env \<Rightarrow> ChatMessage option list \<Rightarrow> jstring list result" where
  "formatEach E [] = Ok []"
| "formatEach E (m # ms) =
     (case formatMessage E m of
        Throw e \<Rightarrow> Throw e
      | Ok block \<Rightarrow>
          (case formatEach E ms of
             Throw e \<Rightarrow> Throw e
           | Ok blocks \<Rightarrow> Ok (block # blocks)))"

definition formatNewMessages :: "env \<Rightarrow> ChatMessage option list \<Rightarrow> jstring result" where
  "formatNewMessages E messages =
     (case formatEach E (filter (\<lambda>m. m \<noteq> None) messages) of
        Throw e \<Rightarrow> Throw e
      | Ok blocks \<Rightarrow>
          Ok (joinWith [10, 10] (filter (\<lambda>formattedMessage. formattedMessage \<noteq> []) blocks)))"

section \<open>Metadata rewriting\<close>

text \<open>
  \<^verbatim>\<open>content.replace(/^KEY.*$/m, replacement)\<close> replaces the first match only.  The
  match starts at a line start (the start of the text or just after a line terminator)
  where the literal \<open>key\<close> stands, and runs to the end of that line.  The replacement
  is a string, so \<^verbatim>\<open>String.prototype.replace\<close> expands the patterns \<^verbatim>\<open>$$\<close>,
  \<^verbatim>\<open>$&\<close>, \<^verbatim>\<open>$`\<close> and \<^verbatim>\<open>$'\<close> in it (the expression has no capture group, so
  \<^verbatim>\<open>$1\<close> and \<^verbatim>\<open>$<\<close> stay as they are).
\<close>

fun getSubstitution :: "jstring \<Rightarrow> jstring \<Rightarrow> jstring \<Rightarrow> jstring \<Rightarrow> jstring" where
  "getSubstitution matched bef aft [] = []"
| "getSubstitution matched bef aft [c] = [c]"
| "getSubstitution matched bef aft (c # d # r) =
     (if c = 36 \<and> d = 36 then 36 # getSubstitution matched bef aft r
      else if c = 36 \<and> d = 38 then matched @ getSubstitution matched bef aft r
      else if c = 36 \<and> d = 96 then bef @ getSubstitution matched bef aft r
      else if c = 36 \<and> d = 39 then aft @ getSubstitution matched bef aft r
      else c # getSubstitution matched bef aft (d # r))"

fun findLine :: "jstring \<Rightarrow> jstring \<Rightarrow> bool \<Rightarrow> jstring \<Rightarrow> (jstring \<times> jstring \<times> jstring) option" where
  "findLine key revBefore atLineStart [] =
     (if atLineStart \<and> key = [] then Some (rev revBefore, [], []) else None)"
| "findLine key revBefore atLineStart (c # cs) =
     (if atLineStart \<and> prefix key (c # cs)
      then Some (rev revBefore,
                 key @ takeWhile (\<lambda>u. \<not> isLineTerminator u) (drop (length key) (c # cs)),
                 dropWhile (\<lambda>u. \<not> isLineTerminator u) (drop (length key) (c # cs)))
      else findLine key (c # revBefore) (isLineTerminator c) cs)"

definition replaceLine :: "jstring \<Rightarrow> jstring \<Rightarrow> jstring \<Rightarrow> jstring" where
  "replaceLine key replacement content =
     (case findLine key [] True content of
        None \<Rightarrow> content
      | Some (bef, matched, aft) \<Rightarrow>
          bef @ getSubstitution matched bef aft replacement @ aft)"

definition updateMetadata :: "env \<Rightarrow> jstring \<Rightarrow> real \<Rightarrow> jstring" where
  "updateMetadata E content updateTime =
     (let updateTimeStr = timeStr E updateTime;
          content1 = replaceLine (js ''update_time: '') (js ''update_time: '' @ updateTimeStr) content
      in replaceLine (js ''Last Updated: '') (js ''Last Updated: '' @ updateTimeStr) content1)"

text \<open>
  What the rewriting is meant to do, said on lines.  \<open>splitLines\<close> cuts a text at its
  line terminators into pairs of a line and the terminator that ends it (none for the
  last line), \<open>joinLines\<close> puts them together again, and \<open>rewriteFirst key new\<close>
  replaces the first line that starts with \<open>key\<close> by \<open>new\<close>, keeping its
  terminator and every other line.  \<open>wellFormedLines\<close> holds of the lists that
  \<open>splitLines\<close> produces.
\<close>

fun splitLines :: "jstring \<Rightarrow> (jstring \<times> jstring) list" where
  "splitLines [] = [([], [])]"
| "splitLines (c # cs) =
     (if isLineTerminator c then ([], [c]) # splitLines cs
      else (case splitLines cs of
              [] \<Rightarrow> [([c], [])]
            | (l, t) # r \<Rightarrow> (c # l, t) # r))"

definition joinLines :: "(jstring \<times> jstring) list \<Rightarrow> jstring" where
  "joinLines segs = concat (map (\<lambda>(l, t). l @ t) segs)"

fun rewriteFirst :: "jstring \<Rightarrow> jstring \<Rightarrow> (jstring \<times> jstring) list \<Rightarrow> (jstring \<times> jstring) list" where
  "rewriteFirst key new [] = []"
| "rewriteFirst key new ((l, t) # r) =
     (if prefix key l then (new, t) # r else (l, t) # rewriteFirst key new r)"

fun wellFormedLines :: "(jstring \<times> jstring) list \<Rightarrow> bool" where
  "wellFormedLines [] = False"
| "wellFormedLines [(l, t)] = ((\<forall>u\<in>set l. \<not> isLineTerminator u) \<and> t = [])"
| "wellFormedLines ((l, t) # r) =
     ((\<forall>u\<in>set l. \<not> isLineTerminator u) \<and> (\<exists>x. t = [x] \<and> isLineTerminator x) \<and> wellFormedLines r)"

section \<open>Catalog, activity report and plugin state\<close>

record ReportEntry =
  re_title :: jstring
  re_filePath :: jstring
  re_createDate :: jstring
  re_updateDate :: jstring
  re_messageCount :: "nat option"
  re_reason :: "jstring option"
  re_errorMessage :: "jstring option"

text \<open>\<open>summary\<close> keeps the arguments of \<^verbatim>\<open>addSummary\<close> (file name, processed, created,
  updated, messages added), not the text rendered from them.\<close>

record ImportReport =
  created :: "ReportEntry list"
  updated :: "ReportEntry list"
  skipped :: "ReportEntry list"
  failed :: "ReportEntry list"
  globalErrors :: "(jstring \<times> jstring) list"
  summary :: "(jstring \<times> nat \<times> nat \<times> nat \<times> nat) option"

record ConversationCatalogEntry =
  conversationId :: jstring
  path :: jstring
  updateTime :: real
  provider :: jstring

text \<open>
  A value of the catalog is an entry; \<^verbatim>\<open>createNewNote\<close> also stores the bare path
  string under the conversation id (\<^verbatim>\<open>existingConversations[chat.id] = filePath\<close>),
  which \<^verbatim>\<open>updateConversationCatalogEntry\<close> then overwrites.  The catalog is a plain
  object, so \<^verbatim>\<open>existingConversations[chat.id]\<close> also finds the members that every
  object inherits from \<^verbatim>\<open>Object.prototype\<close>: for an id that names one of them and is
  no key of the catalog, the lookup returns that member (\<open>Inherited\<close>), which is never
  stored.
\<close>

datatype catalog_value = Entry ConversationCatalogEntry | PathString jstring | Inherited

definition objectPrototypeMembers :: "jstring list" where
  "objectPrototypeMembers =
     [js ''constructor'', js ''__defineGetter__'', js ''__defineSetter__'', js ''hasOwnProperty'',
      js ''__lookupGetter__'', js ''__lookupSetter__'', js ''isPrototypeOf'',
      js ''propertyIsEnumerable'', js ''toString'', js ''valueOf'', js ''__proto__'',
      js ''toLocaleString'']"

record ConversationCounters =
  totalExistingConversations :: nat
  totalNewConversationsToImport :: nat
  totalExistingConversationsToUpdate :: nat
  totalNewConversationsSuccessfullyImported :: nat
  totalConversationsActuallyUpdated :: nat
  totalConversationsProcessed :: nat

record MessageCounters =
  totalNonEmptyMessagesToImport :: nat
  totalNonEmptyMessagesToAdd :: nat
  totalNonEmptyMessagesAdded :: nat

text \<open>The state that reconciliation reads and mutates.  \<open>vault_writes\<close> lists the calls
  of \<^verbatim>\<open>vault.modify\<close> and \<^verbatim>\<open>vault.create\<close> that completed, in order.\<close>

record plugin =
  vault :: vault
  vault_writes :: "(jstring \<times> jstring) list"
  conversationCatalog :: "jstring \<rightharpoonup> catalog_value"
  importReport :: ImportReport
  conversationCounters :: ConversationCounters
  messageCounters :: MessageCounters

definition addCreated :: "jstring \<Rightarrow> jstring \<Rightarrow> jstring \<Rightarrow> jstring \<Rightarrow> nat \<Rightarrow> ImportReport \<Rightarrow> ImportReport" where
  "addCreated ttl filePath createDate updateDate messageCount r =
     r\<lparr>created := created r @
        [\<lparr>re_title = ttl, re_filePath = filePath, re_createDate = createDate,
          re_updateDate = updateDate, re_messageCount = Some messageCount,
          re_reason = None, re_errorMessage = None\<rparr>]\<rparr>"

definition addUpdated :: "jstring \<Rightarrow> jstring \<Rightarrow> jstring \<Rightarrow> jstring \<Rightarrow> nat \<Rightarrow> ImportReport \<Rightarrow> ImportReport" where
  "addUpdated ttl filePath createDate updateDate messageCount r =
     r\<lparr>updated := updated r @
        [\<lparr>re_title = ttl, re_filePath = filePath, re_createDate = createDate,
          re_updateDate = updateDate, re_messageCount = Some messageCount,
          re_reason = None, re_errorMessage = None\<rparr>]\<rparr>"

definition addSkipped :: "jstring \<Rightarrow> jstring \<Rightarrow> jstring \<Rightarrow> jstring \<Rightarrow> nat \<Rightarrow> jstring \<Rightarrow> ImportReport \<Rightarrow> ImportReport" where
  "addSkipped ttl filePath createDate updateDate messageCount reason r =
     r\<lparr>skipped := skipped r @
        [\<lparr>re_title = ttl, re_filePath = filePath, re_createDate = createDate,
          re_updateDate = updateDate, re_messageCount = Some messageCount,
          re_reason = Some reason, re_errorMessage = None\<rparr>]\<rparr>"

definition addFailed :: "jstring \<Rightarrow> jstring \<Rightarrow> jstring \<Rightarrow> jstring \<Rightarrow> jstring \<Rightarrow> ImportReport \<Rightarrow> ImportReport" where
  "addFailed ttl filePath createDate updateDate errorMessage r =
     r\<lparr>failed := failed r @
        [\<lparr>re_title = ttl, re_filePath = filePath, re_createDate = createDate,
          re_updateDate = updateDate, re_messageCount = None,
          re_reason = None, re_errorMessage = Some errorMessage\<rparr>]\<rparr>"

definition addError :: "jstring \<Rightarrow> jstring \<Rightarrow> ImportReport \<Rightarrow> ImportReport" where
  "addError msg details r = r\<lparr>globalErrors := globalErrors r @ [(msg, details)]\<rparr>"


definition logErrorInReport :: "jstring \<Rightarrow> jstring \<Rightarrow> plugin \<Rightarrow> plugin" where
  "logErrorInReport msg details s = s\<lparr>importReport := addError msg details (importReport s)\<rparr>"

section \<open>Reconciliation engine\<close>

definition titleOrUntitled :: "Chat \<Rightarrow> jstring" where
  \<comment> \<open>\<^verbatim>\<open>chat.title || "Untitled"\<close>\<close>
  "titleOrUntitled chat = (if title chat = [] then js ''Untitled'' else title chat)"

definition dateAndTime :: "env \<Rightarrow> real \<Rightarrow> jstring" where
  \<comment> \<open>\<^verbatim>\<open>`${formatTimestamp(t, "date")} ${formatTimestamp(t, "time")}`\<close>\<close>
  "dateAndTime E t = formatTimestamp E t FDate @ js '' '' @ formatTimestamp E t FTime"

definition validMessageCount :: "env \<Rightarrow> Chat \<Rightarrow> nat" where
  \<comment> \<open>\<^verbatim>\<open>Object.values(chat.mapping).filter((msg) => isValidMessage(msg.message)).length\<close>\<close>
  "validMessageCount E chat =
     length (filter (\<lambda>(k, n). isValidMessage E (message n)) (mapping chat))"

definition writeToFile :: "env \<Rightarrow> jstring \<Rightarrow> jstring \<Rightarrow> plugin \<Rightarrow> unit result \<times> plugin" where
  "writeToFile E filePath content s =
     (case vault s filePath of
        Some (TFile old) \<Rightarrow>
          (case io_error E VaultModify filePath of
             Some e \<Rightarrow> (Throw e, s)
           | None \<Rightarrow>
               (Ok (), s\<lparr>vault := (vault s)(filePath \<mapsto> TFile content),
                         vault_writes := vault_writes s @ [(filePath, content)]\<rparr>))
      | Some TFolder \<Rightarrow>
          (Throw (js ''Cannot write to '' @ [39] @ filePath @ [39] @ js ''; it is a folder.''), s)
      | None \<Rightarrow>
          (case io_error E VaultCreate filePath of
             Some e \<Rightarrow> (Throw e, s)
           | None \<Rightarrow>
               (Ok (), s\<lparr>vault := (vault s)(filePath \<mapsto> TFile content),
                         vault_writes := vault_writes s @ [(filePath, content)]\<rparr>)))"

text \<open>The part of \<^verbatim>\<open>updateExistingNote\<close> between reading the note and comparing the
  texts: the metadata is rewritten, then the delta is appended.  It throws when
  \<^verbatim>\<open>formatNewMessages\<close> does.\<close>

definition mergedContent :: "env \<Rightarrow> Chat \<Rightarrow> jstring \<Rightarrow> jstring result" where
  "mergedContent E chat originalContent =
     (let content = updateMetadata E originalContent (update_time chat);
          existingMessageIds = extractMessageUIDsFromNote content;
          newMessages = getNewMessages E chat existingMessageIds
      in if newMessages \<noteq> []
         then (case formatNewMessages E newMessages of
                 Throw e \<Rightarrow> Throw e
               | Ok formatted \<Rightarrow> Ok (content @ [10, 10] @ formatted))
         else Ok content)"

text \<open>\<^verbatim>\<open>updateExistingNote\<close> catches every error itself and only logs it, so it always
  returns; the state it has reached when the error is thrown stays.  The counters are
  raised after \<^verbatim>\<open>formatNewMessages\<close> has returned.\<close>

definition updateExistingNote :: "env \<Rightarrow> Chat \<Rightarrow> jstring \<Rightarrow> nat \<Rightarrow> plugin \<Rightarrow> plugin" where
  "updateExistingNote E chat filePath totalMessageCount s =
     (case vault s filePath of
        Some (TFile originalContent) \<Rightarrow>
          (case io_error E VaultRead filePath of
             Some e \<Rightarrow> s
           | None \<Rightarrow>
               (case mergedContent E chat originalContent of
                  Throw e \<Rightarrow> s
                | Ok content \<Rightarrow>
                    (let newMessages =
                           getNewMessages E chat
                             (extractMessageUIDsFromNote
                                (updateMetadata E originalContent (update_time chat)));
                         s1 = (if newMessages \<noteq> []
                               then s\<lparr>conversationCounters := (conversationCounters s)
                                        \<lparr>totalConversationsActuallyUpdated :=
                                           totalConversationsActuallyUpdated (conversationCounters s) + 1\<rparr>,
                                      messageCounters := (messageCounters s)
                                        \<lparr>totalNonEmptyMessagesAdded :=
                                           totalNonEmptyMessagesAdded (messageCounters s)
                                             + length newMessages\<rparr>\<rparr>
                               else s)
                     in if content \<noteq> originalContent
                        then (case writeToFile E filePath content s1 of
                                (Throw e, s2) \<Rightarrow> s2
                              | (Ok u, s2) \<Rightarrow>
                                  s2\<lparr>importReport :=
                                       addUpdated (titleOrUntitled chat) filePath
                                         (dateAndTime E (create_time chat))
                                         (dateAndTime E (update_time chat))
                                         totalMessageCount (importReport s2)\<rparr>)
                        else s1\<lparr>importReport :=
                                  addSkipped (titleOrUntitled chat) filePath
                                    (dateAndTime E (create_time chat))
                                    (dateAndTime E (update_time chat))
                                    totalMessageCount (js ''No changes needed'')
                                    (importReport s1)\<rparr>)))
      | _ \<Rightarrow> s)"

text \<open>\<^verbatim>\<open>createNewNote\<close>: rendering and writing are inside its \<^verbatim>\<open>try\<close>; its
  \<^verbatim>\<open>catch\<close> records the \<open>failed\<close> entry and throws the error again.\<close>

definition createNewNote :: "env \<Rightarrow> Chat \<Rightarrow> jstring \<Rightarrow> plugin \<Rightarrow> unit result \<times> plugin" where
  "createNewNote E chat filePath s =
     (let caught = (\<lambda>e s'.
            (Throw e,
             s'\<lparr>importReport :=
                  addFailed (titleOrUntitled chat) filePath
                    (dateAndTime E (create_time chat)) (dateAndTime E (update_time chat))
                    e (importReport s')\<rparr>))
      in case generateMarkdownContent E chat of
           Throw e \<Rightarrow> caught e s
         | Ok content \<Rightarrow>
             (case writeToFile E filePath content s of
                (Throw e, s1) \<Rightarrow> caught e s1
              | (Ok u, s1) \<Rightarrow>
                  (let messageCount = validMessageCount E chat
                   in (Ok (),
                       s1\<lparr>importReport :=
                            addCreated (titleOrUntitled chat) filePath
                              (dateAndTime E (create_time chat)) (dateAndTime E (update_time chat))
                              messageCount (importReport s1),
                          conversationCounters := (conversationCounters s1)
                            \<lparr>totalNewConversationsSuccessfullyImported :=
                               totalNewConversationsSuccessfullyImported (conversationCounters s1) + 1\<rparr>,
                          messageCounters := (messageCounters s1)
                            \<lparr>totalNonEmptyMessagesToImport :=
                               totalNonEmptyMessagesToImport (messageCounters s1) + messageCount\<rparr>,
                          conversationCatalog :=
                            (conversationCatalog s1)(chat_id chat \<mapsto> PathString filePath)\<rparr>))))"

definition generateFilePath ::
  "env \<Rightarrow> jstring \<Rightarrow> real \<Rightarrow> jstring \<Rightarrow> jstring \<Rightarrow> plugin \<Rightarrow> jstring result \<times> plugin" where
  "generateFilePath E ttl createdTime prefixFormat archivePath s =
     (case dateParts E createdTime of
        (year, month, day) \<Rightarrow>
          (let folderPath = archivePath @ js ''/'' @ year @ js ''/'' @ month
           in case ensureFolderExists E folderPath (vault s) of
                ((success, err), v1) \<Rightarrow>
                  if \<not> success
                  then (Throw (if err = [] then js ''Failed to ensure folder exists.'' else err),
                        s\<lparr>vault := v1\<rparr>)
                  else
                    (let fileName0 = generateFileName E ttl @ js ''.md'';
                         fileName =
                           (if addDatePrefix (settings E)
                            then (let pre = (if prefixFormat = js ''YYYY-MM-DD''
                                             then year @ js ''-'' @ month @ js ''-'' @ day
                                             else if prefixFormat = js ''YYYYMMDD''
                                             then year @ month @ day
                                             else [])
                                  in pre @ js '' - '' @ fileName0)
                            else fileName0);
                         filePath0 = folderPath @ js ''/'' @ fileName;
                         filePath = (if doesFilePathExist E filePath0 v1
                                     then generateUniqueFileName E filePath0 v1
                                     else filePath0)
                     in (Ok filePath, s\<lparr>vault := v1\<rparr>))))"

definition updateConversationCatalogEntry :: "Chat \<Rightarrow> jstring \<Rightarrow> plugin \<Rightarrow> plugin" where
  "updateConversationCatalogEntry chat filePath s =
     s\<lparr>conversationCatalog := (conversationCatalog s)
         (chat_id chat \<mapsto> Entry \<lparr>conversationId = chat_id chat, path = filePath,
                                   updateTime = update_time chat, provider = js ''chatgpt''\<rparr>)\<rparr>"

definition handleNewChat :: "env \<Rightarrow> Chat \<Rightarrow> jstring \<Rightarrow> plugin \<Rightarrow> unit result \<times> plugin" where
  "handleNewChat E chat filePath s =
     createNewNote E chat filePath
       (s\<lparr>conversationCounters := (conversationCounters s)
            \<lparr>totalNewConversationsToImport :=
               totalNewConversationsToImport (conversationCounters s) + 1\<rparr>\<rparr>)"

text \<open>For a bare path string in the catalog and for an inherited member,
  \<^verbatim>\<open>existingRecord.updateTime\<close> and \<^verbatim>\<open>existingRecord.path\<close> are \<^verbatim>\<open>undefined\<close>: the
  comparison is false and no note is found at the undefined path.\<close>

definition handleExistingChat :: "env \<Rightarrow> Chat \<Rightarrow> catalog_value \<Rightarrow> plugin \<Rightarrow> plugin" where
  "handleExistingChat E chat existingRecord s =
     (let totalMessageCount = validMessageCount E chat;
          toUpdate = s\<lparr>conversationCounters := (conversationCounters s)
                        \<lparr>totalExistingConversationsToUpdate :=
                           totalExistingConversationsToUpdate (conversationCounters s) + 1\<rparr>\<rparr>
      in case existingRecord of
           Entry r \<Rightarrow>
             if updateTime r \<ge> update_time chat
             then s\<lparr>importReport :=
                      addSkipped (titleOrUntitled chat) (path r)
                        (formatTimestamp E (create_time chat) FDate)
                        (formatTimestamp E (update_time chat) FDate)
                        totalMessageCount (js ''No Updates'') (importReport s)\<rparr>
             else updateExistingNote E chat (path r) totalMessageCount toUpdate
         | PathString p \<Rightarrow> toUpdate
         | Inherited \<Rightarrow> toUpdate)"

definition catalogued :: "plugin \<Rightarrow> jstring \<Rightarrow> catalog_value option" where
  \<comment> \<open>the value of \<^verbatim>\<open>existingConversations[chat.id]\<close> when it is truthy\<close>
  "catalogued s cid =
     (case conversationCatalog s cid of
        Some (PathString p) \<Rightarrow> if p = [] then None else Some (PathString p)
      | Some v \<Rightarrow> Some v
      | None \<Rightarrow> if cid \<in> set objectPrototypeMembers then Some Inherited else None)"

text \<open>\<open>tryProcessSingleChat\<close> is the \<^verbatim>\<open>try\<close> block of \<^verbatim>\<open>processSingleChat\<close>: it
  returns, or throws what \<^verbatim>\<open>generateFilePath\<close> or \<^verbatim>\<open>handleNewChat\<close> throws.
  \<^verbatim>\<open>processSingleChat\<close> catches that error and records it with
  \<^verbatim>\<open>logErrorInReport\<close>.\<close>

definition tryProcessSingleChat :: "env \<Rightarrow> Chat \<Rightarrow> plugin \<Rightarrow> unit result \<times> plugin" where
  "tryProcessSingleChat E chat s =
     (let processed = (\<lambda>s'. s'\<lparr>conversationCounters := (conversationCounters s')
                                \<lparr>totalConversationsProcessed :=
                                   totalConversationsProcessed (conversationCounters s') + 1\<rparr>\<rparr>)
      in case catalogued s (chat_id chat) of
           Some existingRecord \<Rightarrow> (Ok (), processed (handleExistingChat E chat existingRecord s))
         | None \<Rightarrow>
             (case generateFilePath E (title chat) (create_time chat)
                     (dateFormat (settings E)) (archiveFolder (settings E)) s of
                (Throw e, s1) \<Rightarrow> (Throw e, s1)
              | (Ok filePath, s1) \<Rightarrow>
                  (case handleNewChat E chat filePath s1 of
                     (Throw e, s2) \<Rightarrow> (Throw e, s2)
                   | (Ok u, s2) \<Rightarrow>
                       (Ok (), processed (updateConversationCatalogEntry chat filePath s2)))))"

definition processSingleChat :: "env \<Rightarrow> Chat \<Rightarrow> plugin \<Rightarrow> plugin" where
  "processSingleChat E chat s =
     (case tryProcessSingleChat E chat s of
        (Ok u, s') \<Rightarrow> s'
      | (Throw e, s') \<Rightarrow>
          logErrorInReport (js ''Error processing chat: '' @ titleOrUntitled chat)
            (if e = [] then js ''Unknown error occurred'' else e) s')"



section \<open>Batch driver: the order of the files\<close>

text \<open>
  \<^verbatim>\<open>selectZipFile\<close> sorts the chosen files with
  \<^verbatim>\<open>files.sort((a, b) => a.name.localeCompare(b.name))\<close> and handles them one after
  the other in that order.  \<^verbatim>\<open>Array.prototype.sort\<close> is stable; the collation of
  \<^verbatim>\<open>localeCompare\<close> belongs to the host and is a parameter.  A file is known to the
  sort by its name alone.
\<close>

record File =
  file_name :: jstring

fun insertFile :: "(jstring \<Rightarrow> jstring \<Rightarrow> int) \<Rightarrow> File \<Rightarrow> File list \<Rightarrow> File list" where
  "insertFile localeCompare x [] = [x]"
| "insertFile localeCompare x (y # ys) =
     (if localeCompare (file_name x) (file_name y) \<le> 0 then x # y # ys
      else y # insertFile localeCompare x ys)"

definition sortedFiles :: "(jstring \<Rightarrow> jstring \<Rightarrow> int) \<Rightarrow> File list \<Rightarrow> File list" where
  "sortedFiles localeCompare files = foldr (insertFile localeCompare) files []"

section \<open>Concrete inputs\<close>

text \<open>
  Modelled from the spec: \<^verbatim>\<open>isValidMessage\<close> of \<^verbatim>\<open>utils.ts\<close>, which is not among
  the sources.  The spec (section 3): a message is valid only if it yields at least one
  non-empty textual part after filtering out unrenderable part types.
\<close>

definition specIsValidMessage :: "ChatMessage option \<Rightarrow> bool" where
  "specIsValidMessage msg =
     (case msg of
        None \<Rightarrow> False
      | Some m \<Rightarrow>
          (case msg_content m of
             None \<Rightarrow> False
           | Some c \<Rightarrow>
               (case parts c of
                  None \<Rightarrow> False
                | Some ps \<Rightarrow>
                    list_ex (\<lambda>p. case p of
                                   PString s \<Rightarrow> s \<noteq> []
                                 | PObject ct tx \<Rightarrow> (case tx of None \<Rightarrow> False | Some t \<Rightarrow> t \<noteq> [])
                                 | PNull \<Rightarrow> False
                                 | POther \<Rightarrow> False) ps)))"

text \<open>
  A formatter for concrete runs, standing in for \<^verbatim>\<open>formatTimestamp\<close> and for the
  \<^verbatim>\<open>Date\<close> of the host: the date and the time of day of a time stamp in UTC, in
  decimal digits (\<^verbatim>\<open>2023-11-14\<close>, \<^verbatim>\<open>22:13:20\<close>).  \<open>utcDate\<close> is the usual
  conversion of a day number to a date of the Gregorian calendar.
\<close>

definition digits2 :: "nat \<Rightarrow> jstring" where
  "digits2 n = [48 + n div 10 mod 10, 48 + n mod 10]"

definition digits4 :: "nat \<Rightarrow> jstring" where
  "digits4 n = [48 + n div 1000 mod 10, 48 + n div 100 mod 10, 48 + n div 10 mod 10, 48 + n mod 10]"

definition utcDate :: "real \<Rightarrow> nat \<times> nat \<times> nat" where
  "utcDate t =
     (let z = nat \<lfloor>t\<rfloor> div 86400 + 719468;
          era = z div 146097;
          doe = z mod 146097;
          yoe = (doe - doe div 1460 + doe div 36524 - doe div 146096) div 365;
          doy = doe - (365 * yoe + yoe div 4 - yoe div 100);
          mp = (5 * doy + 2) div 153;
          d = doy - (153 * mp + 2) div 5 + 1;
          m = (if mp < 10 then mp + 3 else mp - 9);
          y = yoe + era * 400 + (if m \<le> 2 then 1 else 0)
      in (y, m, d))"

definition isoDate :: "jstring \<Rightarrow> real \<Rightarrow> jstring" where
  "isoDate sep t = (case utcDate t of (y, m, d) \<Rightarrow> digits4 y @ sep @ digits2 m @ sep @ digits2 d)"

definition isoTime :: "real \<Rightarrow> jstring" where
  "isoTime t =
     (let s = nat \<lfloor>t\<rfloor> mod 86400
      in digits2 (s div 3600) @ js '':'' @ digits2 (s div 60 mod 60) @ js '':'' @ digits2 (s mod 60))"

text \<open>
  An environment for runs on concrete input.  \<^verbatim>\<open>isValidMessage\<close> is the predicate
  modelled above.  The other helpers of \<^verbatim>\<open>utils.ts\<close> are stand-ins: time stamps print
  in UTC as above, titles and file names are taken as they are, every folder can be
  ensured, a path exists when the vault has something there, and no call of the vault
  fails.  The settings are \<^verbatim>\<open>DEFAULT_SETTINGS\<close> of \<^verbatim>\<open>main.ts\<close>.
\<close>

definition sampleEnv :: env where
  "sampleEnv =
     \<lparr>formatTimestamp = (\<lambda>t f. case f of FDate \<Rightarrow> isoDate (js ''-'') t
                                      | FTime \<Rightarrow> isoTime t
                                      | FPrefix \<Rightarrow> isoDate [] t),
      formatTitle = (\<lambda>t. t),
      isValidMessage = specIsValidMessage,
      generateFileName = (\<lambda>t. t),
      generateUniqueFileName = (\<lambda>p v. p @ js '' 1''),
      doesFilePathExist = (\<lambda>p v. v p \<noteq> None),
      ensureFolderExists = (\<lambda>p v. ((True, []), v)),
      dateParts = (\<lambda>t. case utcDate t of (y, m, d) \<Rightarrow> (digits4 y, digits2 m, digits2 d)),
      io_error = (\<lambda>operation p. None),
      now = 1700000000,
      manifest_id = js ''nexus-ai-chat-importer'',
      settings = \<lparr>archiveFolder = js ''Nexus AI Chat Imports'', addDatePrefix = False,
                  dateFormat = js ''YYYY-MM-DD''\<rparr>\<rparr>"

definition partsMessage :: "string \<Rightarrow> string \<Rightarrow> part list \<Rightarrow> ChatMessage" where
  "partsMessage i r ps =
     \<lparr>msg_id = js i, msg_create_time = Some 1700000000,
      msg_author = Some \<lparr>role = Some (RoleString (js r))\<rparr>,
      msg_content = Some \<lparr>content_type = Some (js ''text''), parts = Some ps\<rparr>\<rparr>"

definition textMessage :: "string \<Rightarrow> string \<Rightarrow> string \<Rightarrow> ChatMessage" where
  "textMessage i r t = partsMessage i r [PString (js t)]"

definition textNode :: "string \<Rightarrow> string \<Rightarrow> string \<Rightarrow> jstring \<times> node" where
  "textNode i r t = (js i, \<lparr>node_id = js i, message = Some (textMessage i r t)\<rparr>)"

text \<open>The conversation of the example in section 8 of the spec; a later revision of it
  with one more message; and a revision half a second later with the same messages.\<close>

definition tripChat :: Chat where
  "tripChat =
     \<lparr>chat_id = js ''c1'', title = js ''Trip'', create_time = 1700000000,
      update_time = 1700000000,
      mapping = [textNode ''m1'' ''user'' ''Hi'', textNode ''m2'' ''assistant'' ''Hello'']\<rparr>"

definition tripChatLater :: Chat where
  "tripChatLater =
     tripChat\<lparr>update_time := 1700000500,
              mapping := mapping tripChat @ [textNode ''m3'' ''user'' ''Thanks'']\<rparr>"

definition tripChatTouched :: Chat where
  "tripChatTouched = tripChat\<lparr>update_time := 1700000000 + 1 / 2\<rparr>"

definition emptyReport :: ImportReport where
  "emptyReport = \<lparr>created = [], updated = [], skipped = [], failed = [], globalErrors = [],
                   summary = None\<rparr>"

definition emptyPlugin :: plugin where
  "emptyPlugin =
     \<lparr>vault = Map.empty, vault_writes = [], conversationCatalog = Map.empty,
      importReport = emptyReport,
      conversationCounters =
        \<lparr>totalExistingConversations = 0, totalNewConversationsToImport = 0,
         totalExistingConversationsToUpdate = 0, totalNewConversationsSuccessfullyImported = 0,
         totalConversationsActuallyUpdated = 0, totalConversationsProcessed = 0\<rparr>,
      messageCounters =
        \<lparr>totalNonEmptyMessagesToImport = 0, totalNonEmptyMessagesToAdd = 0,
         totalNonEmptyMessagesAdded = 0\<rparr>\<rparr>"

text \<open>The note that the first import of \<open>tripChat\<close> writes, the state after that import,
  and the same state after the note was deleted behind the plugin's back.\<close>

definition tripNote :: jstring where
  "tripNote = renderedNote sampleEnv tripChat"

definition cataloguedPlugin :: plugin where
  "cataloguedPlugin = processSingleChat sampleEnv tripChat emptyPlugin"

definition orphanedPlugin :: plugin where
  "orphanedPlugin = cataloguedPlugin\<lparr>vault := Map.empty\<rparr>"


definition modifyFailEnv :: env where
  "modifyFailEnv =
     sampleEnv\<lparr>io_error := (\<lambda>operation p. if operation = VaultModify
                                          then Some (js ''EBUSY: resource busy'') else None)\<rparr>"


text \<open>A conversation whose only message has no content, one whose message quotes a marker,
  and one whose message has a \<^verbatim>\<open>null\<close> among its parts.\<close>

definition silentChat :: Chat where
  "silentChat =
     \<lparr>chat_id = js ''c3'', title = js ''Silent'', create_time = 1700000000,
      update_time = 1700000000,
      mapping = [(js ''s1'', \<lparr>node_id = js ''s1'',
                   message = Some ((textMessage ''s1'' ''user'' [])\<lparr>msg_content := None\<rparr>)\<rparr>)]\<rparr>"

definition quotingChat :: Chat where
  "quotingChat =
     \<lparr>chat_id = js ''c4'', title = js ''Markers'', create_time = 1700000000,
      update_time = 1700000000,
      mapping = [textNode ''q1'' ''user'' ''<!-- UID: zz -->'']\<rparr>"

definition brokenChat :: Chat where
  "brokenChat =
     \<lparr>chat_id = js ''c5'', title = js ''Broken'', create_time = 1700000000,
      update_time = 1700000000,
      mapping = [(js ''b1'', \<lparr>node_id = js ''b1'',
                   message = Some (partsMessage ''b1'' ''assistant'' [PString (js ''Hi''), PNull])\<rparr>)]\<rparr>"

text \<open>A collation for concrete runs: the order of the code units.  The names compared
  with it below differ in their first letter, a lowercase ASCII letter in both.\<close>

fun codeUnitCompare :: "jstring \<Rightarrow> jstring \<Rightarrow> int" where
  "codeUnitCompare [] [] = 0"
| "codeUnitCompare [] (y # ys) = - 1"
| "codeUnitCompare (x # xs) [] = 1"
| "codeUnitCompare (x # xs) (y # ys) =
     (if x < y then - 1 else if y < x then 1 else codeUnitCompare xs ys)"

text \<open>The note of \<open>tripChat\<close> as it reads once its metadata carry the time of the later
  revision.\<close>

definition tripNoteRestamped :: jstring where
  "tripNoteRestamped = renderedNote sampleEnv (tripChat\<lparr>update_time := 1700000500\<rparr>)"

section \<open>Scanning rendered text\<close>

lemma prefix_open_hd: "prefix (js ''<!-- UID: '') (c # cs) \<Longrightarrow> c = 60"
  by (simp add: js_def)

lemma scan_skip: "60 \<notin> set p \<Longrightarrow> extractMessageUIDsFromNote (p @ r) = extractMessageUIDsFromNote r"
proof (induction p)
  case Nil then show ?case by simp
next
  case (Cons c p)
  then have "\<not> prefix (js ''<!-- UID: '') (c # p @ r)" using prefix_open_hd by auto
  with Cons show ?case by simp
qed

lemma prefix_before_terminator:
  assumes "\<forall>u\<in>set k. \<not> isLineTerminator u" "isLineTerminator t"
  shows "prefix k (a @ t # b) \<longleftrightarrow> prefix k a"
proof
  assume p: "prefix k (a @ t # b)"
  show "prefix k a"
  proof (rule ccontr)
    assume n: "\<not> prefix k a"
    from p have "prefix k a \<or> (\<exists>us. us \<noteq> [] \<and> prefix us (t # b) \<and> k = a @ us)"
      by (auto simp: prefix_append)
    with n obtain us where "us \<noteq> []" "prefix us (t # b)" "k = a @ us" by blast
    then have "t \<in> set k" by (cases us) auto
    with assms show False by blast
  qed
next
  assume "prefix k a" then show "prefix k (a @ t # b)" by simp
qed

lemma drop_within: "n \<le> length xs \<Longrightarrow> drop n (xs @ ys) = drop n xs @ ys"
  by simp

lemma lazyUntil_line:
  assumes "\<forall>u\<in>set close. \<not> isLineTerminator u" "close \<noteq> []" "isLineTerminator t"
  shows "lazyUntil close (x @ t # b) =
         (case lazyUntil close x of None \<Rightarrow> None | Some (cap, rest) \<Rightarrow> Some (cap, rest @ t # b))"
proof (induction x)
  case Nil
  have "\<not> prefix close (t # b)" using assms by (cases close) auto
  with assms show ?case by simp
next
  case (Cons c x)
  have pe: "prefix close (c # (x @ t # b)) \<longleftrightarrow> prefix close (c # x)"
    using prefix_before_terminator[OF assms(1) assms(3), of "c # x" b] by simp
  show ?case
  proof (cases "prefix close (c # x)")
    case True
    then have "length close \<le> length (c # x)" by (rule prefix_length_le)
    then have "drop (length close) ((c # x) @ t # b) = drop (length close) (c # x) @ t # b"
      by (rule drop_within)
    then have "drop (length close) (c # (x @ t # b)) = drop (length close) (c # x) @ t # b"
      by simp
    with True pe show ?thesis by (simp del: drop_Cons_numeral)
  next
    case False
    with pe Cons show ?thesis by (auto split: option.splits)
  qed
qed

lemma open_noLT: "\<forall>u\<in>set (js ''<!-- UID: ''). \<not> isLineTerminator u"
  by (simp add: js_def isLineTerminator_def)

lemma close_noLT: "\<forall>u\<in>set (js '' -->''). \<not> isLineTerminator u"
  by (simp add: js_def isLineTerminator_def)

lemma close_ne: "js '' -->'' \<noteq> []" by (simp add: js_def)

lemma open_len: "length (js ''<!-- UID: '') = 10" by (simp add: js_def)

lemma scan_line:
  "isLineTerminator t \<Longrightarrow>
   extractMessageUIDsFromNote (a @ t # b) = extractMessageUIDsFromNote a @ extractMessageUIDsFromNote b"
proof (induction a rule: extractMessageUIDsFromNote.induct)
  case 1
  then have "t \<noteq> 60" by (auto simp: isLineTerminator_def)
  then have "\<not> prefix (js ''<!-- UID: '') (t # b)" using prefix_open_hd by blast
  then show ?case by simp
next
  case (2 c cs)
  let ?op = "js ''<!-- UID: ''" and ?cl = "js '' -->''"
  have pe: "prefix ?op (c # (cs @ t # b)) \<longleftrightarrow> prefix ?op (c # cs)"
    using prefix_before_terminator[OF open_noLT 2(4), of "c # cs" b] by simp
  have unf: "extractMessageUIDsFromNote ((c # cs) @ t # b) =
     (if prefix ?op (c # (cs @ t # b))
      then (case lazyUntil ?cl (drop 10 (c # (cs @ t # b))) of
              None \<Rightarrow> extractMessageUIDsFromNote (cs @ t # b)
            | Some (cap, rest) \<Rightarrow> cap # extractMessageUIDsFromNote rest)
      else extractMessageUIDsFromNote (cs @ t # b))"
    by (simp only: append_Cons extractMessageUIDsFromNote.simps)
  show ?case
  proof (cases "prefix ?op (c # cs)")
    case False
    with pe unf 2(3)[OF False 2(4)] show ?thesis by (simp del: drop_Cons_numeral)
  next
    case True
    then have "length ?op \<le> length (c # cs)" by (rule prefix_length_le)
    then have len: "10 \<le> length (c # cs)" by (simp add: open_len)
    have "drop 10 ((c # cs) @ t # b) = drop 10 (c # cs) @ t # b"
      using len by (rule drop_within)
    then have dr: "drop 10 (c # (cs @ t # b)) = drop 10 (c # cs) @ t # b" by simp
    have lz: "lazyUntil ?cl (drop 10 (c # cs) @ t # b) =
         (case lazyUntil ?cl (drop 10 (c # cs)) of None \<Rightarrow> None
          | Some (cap, rest) \<Rightarrow> Some (cap, rest @ t # b))"
      by (rule lazyUntil_line[OF close_noLT close_ne 2(4)])
    show ?thesis
    proof (cases "lazyUntil ?cl (drop 10 (c # cs))")
      case None
      have "extractMessageUIDsFromNote ((c # cs) @ t # b) = extractMessageUIDsFromNote (cs @ t # b)"
        using unf pe True lz None by (simp only: dr option.case if_True)
      also have "\<dots> = extractMessageUIDsFromNote cs @ extractMessageUIDsFromNote b"
        using 2(1)[OF True None 2(4)] .
      also have "extractMessageUIDsFromNote cs = extractMessageUIDsFromNote (c # cs)"
        using True None by (simp del: drop_Cons_numeral)
      finally show ?thesis .
    next
      case (Some cr)
      obtain cap rest where cr: "cr = (cap, rest)" by (cases cr)
      have "extractMessageUIDsFromNote ((c # cs) @ t # b) = cap # extractMessageUIDsFromNote (rest @ t # b)"
        using unf pe True lz Some cr by (simp only: dr option.case if_True prod.case)
      also have "extractMessageUIDsFromNote (rest @ t # b) = extractMessageUIDsFromNote rest @ extractMessageUIDsFromNote b"
        using 2(2)[OF True Some cr[symmetric] 2(4)] .
      also have "cap # (extractMessageUIDsFromNote rest @ extractMessageUIDsFromNote b) = extractMessageUIDsFromNote (c # cs) @ extractMessageUIDsFromNote b"
        using True Some cr by (simp del: drop_Cons_numeral)
      finally show ?thesis .
    qed
  qed
qed

lemma prefix_short: "prefix k (x @ y) \<Longrightarrow> length k \<le> length x \<Longrightarrow> prefix k x"
  by (auto simp: prefix_append)

lemma lazyUntil_exact:
  assumes "\<forall>u\<in>set i. \<not> isLineTerminator u"
      and "\<not> sublist (js '' -->'') (i @ js '' --'')"
  shows "lazyUntil (js '' -->'') (i @ js '' -->'' @ r) = Some (i, r)"
  using assms
proof (induction i)
  case Nil
  show ?case by (simp add: js_def)
next
  case (Cons c i)
  from Cons.prems(2) have np: "\<not> prefix (js '' -->'') ((c # i) @ js '' --'')"
    and ns: "\<not> sublist (js '' -->'') (i @ js '' --'')"
    by (simp_all add: sublist_Cons_right)
  have "\<not> prefix (js '' -->'') (c # (i @ js '' -->'' @ r))"
  proof
    assume "prefix (js '' -->'') (c # (i @ js '' -->'' @ r))"
    then have "prefix (js '' -->'') (((c # i) @ js '' --'') @ (62 # r))"
      by (simp add: js_def)
    moreover have "length (js '' -->'') \<le> length ((c # i) @ js '' --'')"
      by (simp add: js_def)
    ultimately have "prefix (js '' -->'') ((c # i) @ js '' --'')" by (rule prefix_short)
    with np show False by blast
  qed
  moreover have "\<not> isLineTerminator c" using Cons.prems(1) by simp
  moreover have "lazyUntil (js '' -->'') (i @ js '' -->'' @ r) = Some (i, r)"
    using Cons.IH Cons.prems(1) ns by simp
  ultimately show ?case by simp
qed

lemma scan_marker:
  assumes "\<forall>u\<in>set i. \<not> isLineTerminator u"
      and "\<not> sublist (js '' -->'') (i @ js '' --'')"
  shows "extractMessageUIDsFromNote (js ''<!-- UID: '' @ i @ js '' -->'' @ r) = i # extractMessageUIDsFromNote r"
proof -
  have p: "prefix (js ''<!-- UID: '') (60 # (js ''!-- UID: '' @ i @ js '' -->'' @ r))"
    by (simp add: js_def)
  have d: "drop 10 (60 # (js ''!-- UID: '' @ i @ js '' -->'' @ r)) = i @ js '' -->'' @ r"
    by (simp add: js_def)
  have e: "js ''<!-- UID: '' @ i @ js '' -->'' @ r = 60 # (js ''!-- UID: '' @ i @ js '' -->'' @ r)"
    by (simp add: js_def)
  show ?thesis
    unfolding e
    by (simp only: extractMessageUIDsFromNote.simps p d lazyUntil_exact[OF assms] if_True option.case prod.case)
qed

lemma scan_none: "60 \<notin> set p \<Longrightarrow> extractMessageUIDsFromNote p = []"
  using scan_skip[of p "[]"] by simp

lemma scan_join:
  "extractMessageUIDsFromNote (joinWith [10] ls) = concat (map extractMessageUIDsFromNote ls)"
proof (induction "[10::nat]" ls rule: joinWith.induct)
  case 1 show ?case by simp
next
  case (2 x) show ?case by simp
next
  case (3 x y ys)
  have "extractMessageUIDsFromNote (x @ 10 # joinWith [10] (y # ys))
        = extractMessageUIDsFromNote x @ extractMessageUIDsFromNote (joinWith [10] (y # ys))"
    by (rule scan_line) (simp add: isLineTerminator_def)
  with 3 show ?case by simp
qed

lemma join_split: "joinWith [d] (splitOn d s) = s"
proof (induction s)
  case Nil show ?case by simp
next
  case (Cons c s)
  show ?case
  proof (cases "splitOn d s")
    case Nil with Cons show ?thesis by simp
  next
    case (Cons l ls)
    with Cons.IH show ?thesis by (cases ls) auto
  qed
qed

lemma scan_quoted:
  assumes "60 \<notin> set q"
  shows "extractMessageUIDsFromNote (joinWith [10] (map (\<lambda>line. q @ line) (splitOn 10 tx)))
         = extractMessageUIDsFromNote tx"
proof -
  have "extractMessageUIDsFromNote (joinWith [10] (map (\<lambda>line. q @ line) (splitOn 10 tx)))
        = concat (map extractMessageUIDsFromNote (map (\<lambda>line. q @ line) (splitOn 10 tx)))"
    by (rule scan_join)
  also have "\<dots> = concat (map extractMessageUIDsFromNote (splitOn 10 tx))"
    using assms by (simp add: scan_skip comp_def)
  also have "\<dots> = extractMessageUIDsFromNote (joinWith [10] (splitOn 10 tx))"
    by (rule scan_join[symmetric])
  finally show ?thesis by (simp add: join_split)
qed


lemma authorName_cases: "authorName m = js ''User'' \<or> authorName m = js ''ChatGPT'' \<or> authorName m = js ''Unknown''"
  by (simp add: authorName_def split: option.splits)

lemma heading_clean:
  assumes "\<forall>t f. 60 \<notin> set (formatTimestamp E t f)"
  shows "60 \<notin> set (headingLevel m @ js '' '' @ authorName m @ js '', on '' @ messageTime E m @ js '';'')"
proof -
  have "60 \<notin> set (authorName m)" using authorName_cases[of m] by (auto simp: js_def)
  moreover have "60 \<notin> set (messageTime E m)" using assms by (simp add: messageTime_def timeStr_def js_def)
  moreover have "60 \<notin> set (headingLevel m)" by (simp add: headingLevel_def js_def)
  ultimately show ?thesis by (simp add: js_def)
qed

lemma quoteChar_clean: "60 \<notin> set (quoteChar m @ js '' '')"
  by (simp add: quoteChar_def js_def)

lemma quoteLines_scan:
  assumes "extractMessageUIDsFromNote (joinWith [10] (map partText kept)) = []"
  shows "extractMessageUIDsFromNote (quoteLines (quoteChar m) kept) = []"
proof (cases "joinWith [10] (map partText kept) = []")
  case True
  then show ?thesis by (simp add: quoteLines_def scan_none quoteChar_def js_def)
next
  case False
  have "extractMessageUIDsFromNote
          (joinWith [10] (map (\<lambda>line. (quoteChar m @ js '' '') @ line)
             (splitOn 10 (joinWith [10] (map partText kept)))))
        = extractMessageUIDsFromNote (joinWith [10] (map partText kept))"
    by (rule scan_quoted[OF quoteChar_clean])
  with assms False show ?thesis by (simp add: quoteLines_def)
qed

lemma body_scan:
  assumes "extractMessageUIDsFromNote (messageTextOf m) = []"
  shows "extractMessageUIDsFromNote (blockBody m) = []"
proof (cases "msg_content m")
  case None
  then show ?thesis by (simp add: blockBody_def scan_none quoteChar_def js_def)
next
  case (Some c)
  show ?thesis
  proof (cases "parts c")
    case None
    with Some show ?thesis by (simp add: blockBody_def scan_none quoteChar_def js_def)
  next
    case (Some ps)
    have "extractMessageUIDsFromNote
            (joinWith [10] (map partText (filter (\<lambda>p. keepPart p = Ok True) ps))) = []"
      using assms Some \<open>msg_content m = Some c\<close> by (simp add: messageTextOf_def messageText_def)
    then have "extractMessageUIDsFromNote
                 (quoteLines (quoteChar m) (filter (\<lambda>p. keepPart p = Ok True) ps)) = []"
      by (rule quoteLines_scan)
    with Some \<open>msg_content m = Some c\<close> show ?thesis by (simp add: blockBody_def)
  qed
qed

lemma format_scan:
  assumes stamps: "\<forall>t f. 60 \<notin> set (formatTimestamp E t f)"
      and idne: "msg_id m \<noteq> []"
      and idlt: "\<forall>u\<in>set (msg_id m). \<not> isLineTerminator u"
      and idcl: "\<not> sublist (js '' -->'') (msg_id m @ js '' --'')"
      and clean: "extractMessageUIDsFromNote (messageTextOf m) = []"
  shows "extractMessageUIDsFromNote (messageBlock E m @ rest)
         = msg_id m # extractMessageUIDsFromNote rest"
proof -
  let ?H = "headingLevel m @ js '' '' @ authorName m @ js '', on '' @ messageTime E m @ js '';''"
  let ?B = "blockBody m"
  let ?T = "(if authorName m = js ''ChatGPT'' then [10] @ js ''---'' @ [10] else []) @ [10, 10]"
  have lt: "isLineTerminator 10" by (simp add: isLineTerminator_def)
  have shape: "messageBlock E m @ rest
        = ?H @ 10 # (?B @ 10 # (js ''<!-- UID: '' @ msg_id m @ js '' -->'' @ ((10 # ?T) @ rest)))"
    using idne by (simp add: messageBlock_def uidMarker_def)
  have t: "60 \<notin> set (10 # ?T)" by (simp add: js_def)
  have "extractMessageUIDsFromNote (messageBlock E m @ rest)
        = extractMessageUIDsFromNote ?H @ (extractMessageUIDsFromNote ?B
            @ extractMessageUIDsFromNote (js ''<!-- UID: '' @ msg_id m @ js '' -->'' @ ((10 # ?T) @ rest)))"
    unfolding shape by (simp only: scan_line[OF lt])
  also have "extractMessageUIDsFromNote ?H = []"
    by (rule scan_none[OF heading_clean[OF stamps]])
  also have "extractMessageUIDsFromNote ?B = []" by (rule body_scan[OF clean])
  also have "extractMessageUIDsFromNote (js ''<!-- UID: '' @ msg_id m @ js '' -->'' @ ((10 # ?T) @ rest))
        = msg_id m # extractMessageUIDsFromNote ((10 # ?T) @ rest)"
    by (rule scan_marker[OF idlt idcl])
  also have "extractMessageUIDsFromNote ((10 # ?T) @ rest) = extractMessageUIDsFromNote rest"
    by (rule scan_skip[OF t])
  finally show ?thesis by simp
qed

lemma blocks_scan:
  assumes stamps: "\<forall>t f. 60 \<notin> set (formatTimestamp E t f)"
      and ok: "\<forall>m\<in>set ms. msg_id m \<noteq> [] \<and> (\<forall>u\<in>set (msg_id m). \<not> isLineTerminator u)
                  \<and> \<not> sublist (js '' -->'') (msg_id m @ js '' --'')
                  \<and> extractMessageUIDsFromNote (messageTextOf m) = []"
  shows "extractMessageUIDsFromNote (concat (map (messageBlock E) ms)) = map msg_id ms"
  using ok
proof (induction ms)
  case Nil show ?case by simp
next
  case (Cons m ms)
  have "extractMessageUIDsFromNote (messageBlock E m @ concat (map (messageBlock E) ms))
        = msg_id m # extractMessageUIDsFromNote (concat (map (messageBlock E) ms))"
    using Cons.prems by (intro format_scan[OF stamps]) auto
  with Cons show ?case by simp
qed

lemma header_line: "\<exists>X. generateHeader E t c a b = X @ [10]"
  by (simp add: generateHeader_def)

lemma rendered_note_uids:
  assumes header: "extractMessageUIDsFromNote
                     (generateHeader E (formatTitle E (title chat)) (chat_id chat)
                        (timeStr E (create_time chat)) (timeStr E (update_time chat))) = []"
      and stamps: "\<forall>t f. 60 \<notin> set (formatTimestamp E t f)"
      and ok: "\<forall>m\<in>set (validMessages E chat). msg_id m \<noteq> [] \<and> (\<forall>u\<in>set (msg_id m). \<not> isLineTerminator u)
                  \<and> \<not> sublist (js '' -->'') (msg_id m @ js '' --'')
                  \<and> extractMessageUIDsFromNote (messageTextOf m) = []"
  shows "extractMessageUIDsFromNote (renderedNote E chat) = map msg_id (validMessages E chat)"
proof -
  let ?h = "generateHeader E (formatTitle E (title chat)) (chat_id chat)
                        (timeStr E (create_time chat)) (timeStr E (update_time chat))"
  obtain X where X: "?h = X @ [10]" using header_line by blast
  have lt: "isLineTerminator 10" by (simp add: isLineTerminator_def)
  have hx: "extractMessageUIDsFromNote X = []"
    using header scan_line[OF lt, of X "[]"] by (simp add: X)
  have "extractMessageUIDsFromNote (renderedNote E chat)
        = extractMessageUIDsFromNote (X @ 10 # concat (map (messageBlock E) (validMessages E chat)))"
    by (simp add: renderedNote_def X)
  also have "\<dots> = extractMessageUIDsFromNote X
                   @ extractMessageUIDsFromNote (concat (map (messageBlock E) (validMessages E chat)))"
    by (rule scan_line[OF lt])
  also have "\<dots> = map msg_id (validMessages E chat)"
    using hx blocks_scan[OF stamps ok] by simp
  finally show ?thesis .
qed

lemma filterParts_eq:
  "filterParts ps = (if list_all (\<lambda>p. p \<noteq> PNull) ps
                     then Ok (filter (\<lambda>p. keepPart p = Ok True) ps)
                     else Throw nullPartError)"
proof (induction ps)
  case Nil show ?case by simp
next
  case (Cons p ps)
  then show ?case by (cases p) auto
qed

lemma messageBody_eq:
  "messageBody (quoteChar m) m = (if noNullPart m then Ok (blockBody m) else Throw nullPartError)"
  by (simp add: messageBody_def noNullPart_def blockBody_def filterParts_eq split: option.splits)

lemma formatMessage_eq:
  "formatMessage E (Some m) = (if noNullPart m then Ok (messageBlock E m) else Throw nullPartError)"
  by (simp add: formatMessage_def messageBody_eq messageBlock_def)

lemma messages_fold:
  "foldl (\<lambda>acc (messageId, messageObj).
              case acc of
                Throw e \<Rightarrow> Throw e
              | Ok messagesContent \<Rightarrow>
                  if message messageObj \<noteq> None \<and> isValidMessage E (message messageObj)
                  then (case formatMessage E (message messageObj) of
                          Throw e \<Rightarrow> Throw e
                        | Ok block \<Rightarrow> Ok (messagesContent @ block))
                  else Ok messagesContent) acc xs
   = (case acc of
        Throw e \<Rightarrow> Throw e
      | Ok a \<Rightarrow>
          (let ms = concat (map (\<lambda>(messageId, messageObj).
                    case message messageObj of
                      None \<Rightarrow> []
                    | Some m \<Rightarrow> if isValidMessage E (Some m) then [m] else []) xs)
           in if list_all noNullPart ms then Ok (a @ concat (map (messageBlock E) ms))
              else Throw nullPartError))"
proof (induction xs arbitrary: acc)
  case Nil
  show ?case by (cases acc) simp_all
next
  case (Cons x xs)
  obtain k n where x: "x = (k, n)" by (cases x)
  show ?case
  proof (cases acc)
    case (Throw e)
    then show ?thesis by (simp add: Cons.IH x)
  next
    case (Ok a)
    show ?thesis
    proof (cases "message n")
      case None
      with Ok show ?thesis by (simp add: Cons.IH x)
    next
      case (Some m)
      with Ok show ?thesis by (simp add: Cons.IH x formatMessage_eq Let_def)
    qed
  qed
qed

lemma generateMessagesContent_eq:
  "generateMessagesContent E chat
     = (if list_all noNullPart (validMessages E chat)
        then Ok (concat (map (messageBlock E) (validMessages E chat)))
        else Throw nullPartError)"
  unfolding generateMessagesContent_def validMessages_def
  by (simp only: messages_fold result.case Let_def append_Nil)

lemma generateMarkdownContent_eq:
  "generateMarkdownContent E chat
     = (if list_all noNullPart (validMessages E chat) then Ok (renderedNote E chat)
        else Throw nullPartError)"
  by (simp add: generateMarkdownContent_def generateMessagesContent_eq renderedNote_def)

lemma formatEach_eq:
  "formatEach E ms
     = (if list_all (\<lambda>m. case m of None \<Rightarrow> True | Some x \<Rightarrow> noNullPart x) ms
        then Ok (map (\<lambda>m. case m of None \<Rightarrow> [] | Some x \<Rightarrow> messageBlock E x) ms)
        else Throw nullPartError)"
proof (induction ms)
  case Nil show ?case by simp
next
  case (Cons m ms)
  show ?case
  proof (cases m)
    case None
    with Cons show ?thesis by (simp add: formatMessage_def)
  next
    case (Some x)
    with Cons show ?thesis by (simp add: formatMessage_eq)
  qed
qed

section \<open>The formatter of the concrete inputs\<close>

lemma sample_floors:
  "nat \<lfloor>1700000000::real\<rfloor> = 1700000000"
  "nat \<lfloor>1700000500::real\<rfloor> = 1700000500"
  "nat \<lfloor>1704067200::real\<rfloor> = 1704067200"
  "nat \<lfloor>1700000000 + 1 / 2::real\<rfloor> = 1700000000"
proof -
  have "\<lfloor>1700000000 + 1 / 2::real\<rfloor> = 1700000000" by linarith
  thus "nat \<lfloor>1700000000 + 1 / 2::real\<rfloor> = 1700000000" by simp
qed simp_all

lemma sample_dates:
  "utcDate 1700000000 = (2023, 11, 14)"
  "utcDate 1700000500 = (2023, 11, 14)"
  "utcDate (1700000000 + 1 / 2) = (2023, 11, 14)"
  "utcDate 1704067200 = (2024, 1, 1)"
  unfolding utcDate_def sample_floors by (simp_all add: Let_def)

lemma sample_clock:
  "isoTime 1700000000 = js ''22:13:20''"
  "isoTime 1700000500 = js ''22:21:40''"
  "isoTime (1700000000 + 1 / 2) = js ''22:13:20''"
  "isoTime 1704067200 = js ''00:00:00''"
  unfolding isoTime_def sample_floors by (simp_all add: Let_def digits2_def js_def)

lemma sample_format:
  "formatTimestamp sampleEnv t FDate = isoDate (js ''-'') t"
  "formatTimestamp sampleEnv t FTime = isoTime t"
  "formatTimestamp sampleEnv t FPrefix = isoDate [] t"
  by (simp_all add: sampleEnv_def)

lemma sample_times:
  "formatTimestamp sampleEnv 1700000000 FDate = js ''2023-11-14''"
  "formatTimestamp sampleEnv 1700000000 FTime = js ''22:13:20''"
  "formatTimestamp sampleEnv 1700000500 FDate = js ''2023-11-14''"
  "formatTimestamp sampleEnv 1700000500 FTime = js ''22:21:40''"
  "formatTimestamp sampleEnv (1700000000 + 1 / 2) FDate = js ''2023-11-14''"
  "formatTimestamp sampleEnv (1700000000 + 1 / 2) FTime = js ''22:13:20''"
  "formatTimestamp sampleEnv 1704067200 FDate = js ''2024-01-01''"
  "formatTimestamp sampleEnv 1704067200 FTime = js ''00:00:00''"
  unfolding sample_format sample_clock isoDate_def sample_dates
  by (simp_all add: digits2_def digits4_def js_def)

lemma sample_dateParts:
  "dateParts sampleEnv 1700000000 = (js ''2023'', js ''11'', js ''14'')"
  "dateParts sampleEnv 1704067200 = (js ''2024'', js ''01'', js ''01'')"
proof -
  have d: "dateParts sampleEnv t = (case utcDate t of (y, m, d) \<Rightarrow> (digits4 y, digits2 m, digits2 d))" for t
    by (simp add: sampleEnv_def)
  show "dateParts sampleEnv 1700000000 = (js ''2023'', js ''11'', js ''14'')"
    unfolding d sample_dates by (simp add: digits2_def digits4_def js_def)
  show "dateParts sampleEnv 1704067200 = (js ''2024'', js ''01'', js ''01'')"
    unfolding d sample_dates by (simp add: digits2_def digits4_def js_def)
qed

lemma sample_timeStr:
  "timeStr sampleEnv 1700000000 = js ''2023-11-14 at 22:13:20''"
  "timeStr sampleEnv 1700000500 = js ''2023-11-14 at 22:21:40''"
  "timeStr sampleEnv (1700000000 + 1 / 2) = js ''2023-11-14 at 22:13:20''"
  "timeStr sampleEnv 1704067200 = js ''2024-01-01 at 00:00:00''"
  unfolding timeStr_def sample_times by (simp_all add: js_def)

lemma sample_env_fields:
  "formatTitle sampleEnv t = t" "isValidMessage sampleEnv = specIsValidMessage"
  "generateFileName sampleEnv t = t" "doesFilePathExist sampleEnv p v = (v p \<noteq> None)"
  "ensureFolderExists sampleEnv p v = ((True, []), v)" "io_error sampleEnv operation p = None"
  "now sampleEnv = 1700000000" "manifest_id sampleEnv = js ''nexus-ai-chat-importer''"
  "settings sampleEnv = \<lparr>archiveFolder = js ''Nexus AI Chat Imports'', addDatePrefix = False,
                  dateFormat = js ''YYYY-MM-DD''\<rparr>"
  by (simp_all add: sampleEnv_def)

lemma sample_stamps: "\<forall>t f. 60 \<notin> set (formatTimestamp sampleEnv t f)"
  by (auto simp: sampleEnv_def isoDate_def isoTime_def digits2_def digits4_def js_def Let_def
           split: ts_format.splits prod.splits)

section \<open>Metadata rewriting on lines\<close>

lemma getSubstitution_plain: "36 \<notin> set repl \<Longrightarrow> getSubstitution m b a repl = repl"
  by (induction m b a repl rule: getSubstitution.induct) auto

lemma splitLines_ne: "splitLines s \<noteq> []"
  by (induction s) (auto split: list.splits)

lemma joinLines_Cons: "joinLines ((l, t) # r) = l @ t @ joinLines r"
  by (simp add: joinLines_def)

lemma join_splitLines: "joinLines (splitLines s) = s"
  by (induction s) (auto simp: joinLines_def split: list.splits)

lemma splitLines_wf: "wellFormedLines (splitLines s)"
proof (induction s)
  case Nil show ?case by simp
next
  case (Cons c s)
  show ?case
  proof (cases "isLineTerminator c")
    case True
    obtain l t r where "splitLines s = (l, t) # r" using splitLines_ne[of s] by (cases "splitLines s") auto
    with True Cons show ?thesis by simp
  next
    case False
    obtain l t r where e: "splitLines s = (l, t) # r" using splitLines_ne[of s] by (cases "splitLines s") auto
    with False Cons show ?thesis by (cases r) auto
  qed
qed

lemma split_joinLines: "wellFormedLines segs \<Longrightarrow> splitLines (joinLines segs) = segs"
proof (induction segs rule: wellFormedLines.induct)
  case 1 then show ?case by simp
next
  case (2 l t)
  then have nl: "\<forall>u\<in>set l. \<not> isLineTerminator u" and t: "t = []" by simp_all
  from nl have "splitLines l = [(l, [])]" by (induction l) auto
  with t show ?case by (simp add: joinLines_def)
next
  case (3 l t v va)
  then obtain x where nl: "\<forall>u\<in>set l. \<not> isLineTerminator u" and t: "t = [x]" "isLineTerminator x"
    and wf: "wellFormedLines (v # va)" by auto
  have ih: "splitLines (joinLines (v # va)) = v # va" using 3 wf by simp
  from nl have "splitLines (l @ x # joinLines (v # va)) = (l, [x]) # v # va"
    using t(2) ih by (induction l) auto
  with t show ?case by (simp add: joinLines_Cons)
qed

lemma rewriteFirst_wf:
  "wellFormedLines segs \<Longrightarrow> \<forall>u\<in>set new. \<not> isLineTerminator u \<Longrightarrow> wellFormedLines (rewriteFirst key new segs)"
  by (induction segs rule: wellFormedLines.induct) auto

lemma rewriteFirst_idem:
  "rewriteFirst key (key @ v) (rewriteFirst key (key @ v) segs) = rewriteFirst key (key @ v) segs"
  by (induction segs) auto

lemma rewriteFirst_commute:
  assumes "\<And>l. \<not> (prefix k1 l \<and> prefix k2 l)" "prefix k1 n1" "prefix k2 n2"
  shows "rewriteFirst k1 n1 (rewriteFirst k2 n2 segs) = rewriteFirst k2 n2 (rewriteFirst k1 n1 segs)"
  using assms by (induction segs) auto

lemma splitLines_first:
  "splitLines s = (l, t) # r \<Longrightarrow>
     l = takeWhile (\<lambda>u. \<not> isLineTerminator u) s \<and> t @ joinLines r = dropWhile (\<lambda>u. \<not> isLineTerminator u) s"
proof (induction s arbitrary: l t r)
  case Nil then show ?case by (simp add: joinLines_def)
next
  case (Cons c s)
  show ?case
  proof (cases "isLineTerminator c")
    case True
    with Cons.prems show ?thesis by (auto simp: join_splitLines)
  next
    case False
    obtain l' t' r' where e: "splitLines s = (l', t') # r'"
      using splitLines_ne[of s] by (cases "splitLines s") auto
    with Cons.IH[OF e] Cons.prems False show ?thesis by auto
  qed
qed

lemma findLine_lines:
  assumes kne: "key \<noteq> []" and klt: "\<forall>u\<in>set key. \<not> isLineTerminator u"
  shows "(case findLine key rb st s of None \<Rightarrow> rev rb @ s | Some (b, m, a) \<Rightarrow> b @ new @ a)
         = rev rb @ joinLines (if st then rewriteFirst key new (splitLines s)
                               else (case splitLines s of [] \<Rightarrow> [] | x # r \<Rightarrow> x # rewriteFirst key new r))"
proof (induction s arbitrary: rb st)
  case Nil
  show ?case using kne by (simp add: joinLines_def)
next
  case (Cons c s)
  obtain l t r where e: "splitLines (c # s) = (l, t) # r"
    using splitLines_ne[of "c # s"] by (cases "splitLines (c # s)") auto
  note f = splitLines_first[OF e]
  show ?case
  proof (cases "st \<and> prefix key (c # s)")
    case True
    then obtain s' where s': "c # s = key @ s'" by (auto simp: prefix_def)
    have pl: "prefix key l" using f klt by (simp add: s' takeWhile_append2)
    have dr: "dropWhile (\<lambda>u. \<not> isLineTerminator u) (drop (length key) (c # s))
              = dropWhile (\<lambda>u. \<not> isLineTerminator u) (c # s)"
      using klt by (simp only: s' dropWhile_append2 append_eq_conv_conj) simp
    have fl: "findLine key rb st (c # s) = Some (rev rb,
                 key @ takeWhile (\<lambda>u. \<not> isLineTerminator u) (drop (length key) (c # s)),
                 dropWhile (\<lambda>u. \<not> isLineTerminator u) (drop (length key) (c # s)))"
      using True by simp
    have lhs: "(case findLine key rb st (c # s) of None \<Rightarrow> rev rb @ (c # s)
                | Some (b, m, a) \<Rightarrow> b @ new @ a)
               = rev rb @ new @ dropWhile (\<lambda>u. \<not> isLineTerminator u) (c # s)"
      by (simp only: fl option.case prod.case dr)
    have "rewriteFirst key new (splitLines (c # s)) = (new, t) # r"
      using pl by (simp only: e rewriteFirst.simps if_True)
    then have "joinLines (rewriteFirst key new (splitLines (c # s))) = new @ t @ joinLines r"
      by (simp only: joinLines_Cons)
    also have "\<dots> = new @ dropWhile (\<lambda>u. \<not> isLineTerminator u) (c # s)"
      using f by (simp only:)
    finally have rhs: "joinLines (if st then rewriteFirst key new (splitLines (c # s))
                               else (case splitLines (c # s) of [] \<Rightarrow> [] | x # r \<Rightarrow> x # rewriteFirst key new r))
               = new @ dropWhile (\<lambda>u. \<not> isLineTerminator u) (c # s)"
      using True by (simp only: if_True)
    show ?thesis by (simp only: lhs rhs)
  next
    case False
    then have fl: "findLine key rb st (c # s) = findLine key (c # rb) (isLineTerminator c) s" by auto
    have ih: "(case findLine key (c # rb) (isLineTerminator c) s of None \<Rightarrow> rev (c # rb) @ s
                 | Some (b, m, a) \<Rightarrow> b @ new @ a)
         = rev (c # rb) @ joinLines (if isLineTerminator c then rewriteFirst key new (splitLines s)
                               else (case splitLines s of [] \<Rightarrow> [] | x # r \<Rightarrow> x # rewriteFirst key new r))"
      by (rule Cons.IH)
    have rhs: "joinLines (if st then rewriteFirst key new (splitLines (c # s))
                               else (case splitLines (c # s) of [] \<Rightarrow> [] | x # r \<Rightarrow> x # rewriteFirst key new r))
          = c # joinLines (if isLineTerminator c then rewriteFirst key new (splitLines s)
                               else (case splitLines s of [] \<Rightarrow> [] | x # r \<Rightarrow> x # rewriteFirst key new r))"
    proof (cases "isLineTerminator c")
      case True
      then show ?thesis using kne by (simp add: joinLines_Cons)
    next
      case nlt: False
      obtain l' t' r' where e': "splitLines s = (l', t') # r'"
        using splitLines_ne[of s] by (cases "splitLines s") auto
      have np: "st \<Longrightarrow> \<not> prefix key (c # l')"
      proof
        assume st "prefix key (c # l')"
        moreover have "prefix (c # l') (c # s)"
          using splitLines_first[OF e'] by (simp add: takeWhile_is_prefix)
        ultimately have "prefix key (c # s)" by (meson prefix_order.trans)
        with \<open>st\<close> False show False by blast
      qed
      show ?thesis using nlt e' np by (auto simp: joinLines_Cons)
    qed
    have "(case findLine key rb st (c # s) of None \<Rightarrow> rev rb @ (c # s)
                | Some (b, m, a) \<Rightarrow> b @ new @ a)
          = (case findLine key (c # rb) (isLineTerminator c) s of None \<Rightarrow> rev (c # rb) @ s
                | Some (b, m, a) \<Rightarrow> b @ new @ a)"
      unfolding fl by (cases "findLine key (c # rb) (isLineTerminator c) s") simp_all
    also note ih
    also have "rev (c # rb) @ joinLines (if isLineTerminator c then rewriteFirst key new (splitLines s)
                               else (case splitLines s of [] \<Rightarrow> [] | x # r \<Rightarrow> x # rewriteFirst key new r))
          = rev rb @ joinLines (if st then rewriteFirst key new (splitLines (c # s))
                               else (case splitLines (c # s) of [] \<Rightarrow> [] | x # r \<Rightarrow> x # rewriteFirst key new r))"
      unfolding rhs by simp
    finally show ?thesis .
  qed
qed

lemma replaceLine_lines:
  assumes "key \<noteq> []" "\<forall>u\<in>set key. \<not> isLineTerminator u" "36 \<notin> set new"
  shows "replaceLine key new content = joinLines (rewriteFirst key new (splitLines content))"
proof -
  have "replaceLine key new content
        = (case findLine key [] True content of None \<Rightarrow> rev [] @ content | Some (b, m, a) \<Rightarrow> b @ new @ a)"
    using assms(3) by (simp add: replaceLine_def getSubstitution_plain split: option.splits)
  also have "\<dots> = rev [] @ joinLines (if True then rewriteFirst key new (splitLines content)
                               else (case splitLines content of [] \<Rightarrow> [] | x # r \<Rightarrow> x # rewriteFirst key new r))"
    by (rule findLine_lines[OF assms(1,2)])
  finally show ?thesis by simp
qed

lemma keys_disjoint: "\<not> (prefix (js ''update_time: '') l \<and> prefix (js ''Last Updated: '') l)"
  by (cases l) (auto simp: js_def)

lemma key_facts:
  "js ''update_time: '' \<noteq> []" "js ''Last Updated: '' \<noteq> []"
  "\<forall>u\<in>set (js ''update_time: ''). \<not> isLineTerminator u"
  "\<forall>u\<in>set (js ''Last Updated: ''). \<not> isLineTerminator u"
  "36 \<notin> set (js ''update_time: '')" "36 \<notin> set (js ''Last Updated: '')"
  by (simp_all add: js_def isLineTerminator_def)

text \<open>
  Claim C10.  When the formatted time stamp holds no line terminator and no \<^verbatim>\<open>$\<close>,
  \<^verbatim>\<open>updateMetadata\<close> changes nothing but the first line that starts with
  \<^verbatim>\<open>update_time: \<close> and the first line that starts with \<^verbatim>\<open>Last Updated: \<close>: every
  other line and every line terminator of the note stays as it is.  Applying it twice with
  the same time stamp gives what applying it once gives.
\<close>

theorem updateMetadata_lines_idempotent:
  assumes ts: "\<forall>u\<in>set (timeStr E t). \<not> isLineTerminator u \<and> u \<noteq> 36"
  shows "updateMetadata E content t
           = joinLines (rewriteFirst (js ''Last Updated: '') (js ''Last Updated: '' @ timeStr E t)
                         (rewriteFirst (js ''update_time: '') (js ''update_time: '' @ timeStr E t)
                           (splitLines content)))
         \<and> updateMetadata E (updateMetadata E content t) t = updateMetadata E content t"
proof -
  let ?k1 = "js ''update_time: ''" and ?k2 = "js ''Last Updated: ''"
  let ?n1 = "?k1 @ timeStr E t" and ?n2 = "?k2 @ timeStr E t"
  have d1: "36 \<notin> set ?n1" and d2: "36 \<notin> set ?n2" using ts key_facts(5,6) by auto
  have l1: "\<forall>u\<in>set ?n1. \<not> isLineTerminator u" and l2: "\<forall>u\<in>set ?n2. \<not> isLineTerminator u"
    using ts key_facts(3,4) by auto
  have step: "updateMetadata E c t = joinLines (rewriteFirst ?k2 ?n2 (rewriteFirst ?k1 ?n1 (splitLines c)))" for c
  proof -
    have wf: "wellFormedLines (rewriteFirst ?k1 ?n1 (splitLines c))"
      by (rule rewriteFirst_wf[OF splitLines_wf l1])
    have "updateMetadata E c t = replaceLine ?k2 ?n2 (replaceLine ?k1 ?n1 c)"
      by (simp add: updateMetadata_def Let_def)
    also have "replaceLine ?k1 ?n1 c = joinLines (rewriteFirst ?k1 ?n1 (splitLines c))"
      by (rule replaceLine_lines[OF key_facts(1) key_facts(3) d1])
    also have "replaceLine ?k2 ?n2 (joinLines (rewriteFirst ?k1 ?n1 (splitLines c)))
               = joinLines (rewriteFirst ?k2 ?n2 (splitLines (joinLines (rewriteFirst ?k1 ?n1 (splitLines c)))))"
      by (rule replaceLine_lines[OF key_facts(2) key_facts(4) d2])
    also have "splitLines (joinLines (rewriteFirst ?k1 ?n1 (splitLines c))) = rewriteFirst ?k1 ?n1 (splitLines c)"
      by (rule split_joinLines[OF wf])
    finally show ?thesis .
  qed
  let ?x = "splitLines content"
  have wf2: "wellFormedLines (rewriteFirst ?k2 ?n2 (rewriteFirst ?k1 ?n1 ?x))"
    by (intro rewriteFirst_wf splitLines_wf l1 l2)
  have "updateMetadata E (updateMetadata E content t) t
        = joinLines (rewriteFirst ?k2 ?n2 (rewriteFirst ?k1 ?n1
             (splitLines (joinLines (rewriteFirst ?k2 ?n2 (rewriteFirst ?k1 ?n1 ?x))))))"
    by (simp only: step)
  also have "splitLines (joinLines (rewriteFirst ?k2 ?n2 (rewriteFirst ?k1 ?n1 ?x)))
             = rewriteFirst ?k2 ?n2 (rewriteFirst ?k1 ?n1 ?x)"
    by (rule split_joinLines[OF wf2])
  also have "rewriteFirst ?k1 ?n1 (rewriteFirst ?k2 ?n2 (rewriteFirst ?k1 ?n1 ?x))
             = rewriteFirst ?k2 ?n2 (rewriteFirst ?k1 ?n1 (rewriteFirst ?k1 ?n1 ?x))"
    by (rule rewriteFirst_commute) (simp_all add: keys_disjoint)
  also have "rewriteFirst ?k1 ?n1 (rewriteFirst ?k1 ?n1 ?x) = rewriteFirst ?k1 ?n1 ?x"
    by (rule rewriteFirst_idem)
  also have "rewriteFirst ?k2 ?n2 (rewriteFirst ?k2 ?n2 (rewriteFirst ?k1 ?n1 ?x))
             = rewriteFirst ?k2 ?n2 (rewriteFirst ?k1 ?n1 ?x)"
    by (rule rewriteFirst_idem)
  finally show ?thesis using step[of content] by simp
qed

text \<open>Witness for C10: a note with two metadata lines, a Windows line end and a later line that
  starts like the first; the time string of the sample formatter has no line end and no
  dollar sign.\<close>

theorem updateMetadata_witness:
  "list_all (\<lambda>u. \<not> isLineTerminator u \<and> u \<noteq> 36) (timeStr sampleEnv 1700000500)
   \<and> updateMetadata sampleEnv
        (js ''update_time: old'' @ [10] @ js ''body'' @ [13, 10] @ js ''Last Updated: old'' @ [10]
           @ js ''update_time: kept'') 1700000500
       = js ''update_time: 2023-11-14 at 22:21:40'' @ [10] @ js ''body'' @ [13, 10]
           @ js ''Last Updated: 2023-11-14 at 22:21:40'' @ [10] @ js ''update_time: kept''
   \<and> updateMetadata sampleEnv
        (updateMetadata sampleEnv
           (js ''update_time: old'' @ [10] @ js ''body'' @ [13, 10] @ js ''Last Updated: old'' @ [10]
              @ js ''update_time: kept'') 1700000500) 1700000500
       = js ''update_time: 2023-11-14 at 22:21:40'' @ [10] @ js ''body'' @ [13, 10]
           @ js ''Last Updated: 2023-11-14 at 22:21:40'' @ [10] @ js ''update_time: kept''"
proof -
  let ?c = "js ''update_time: old'' @ [10] @ js ''body'' @ [13, 10] @ js ''Last Updated: old'' @ [10]
           @ js ''update_time: kept''"
  let ?r = "js ''update_time: 2023-11-14 at 22:21:40'' @ [10] @ js ''body'' @ [13, 10]
           @ js ''Last Updated: 2023-11-14 at 22:21:40'' @ [10] @ js ''update_time: kept''"
  note ts = sample_timeStr(2)
  have h: "\<forall>u\<in>set (timeStr sampleEnv 1700000500). \<not> isLineTerminator u \<and> u \<noteq> 36"
    unfolding ts by (simp add: js_def isLineTerminator_def)
  note th = updateMetadata_lines_idempotent[OF h, of ?c]
  have step: "joinLines (rewriteFirst (js ''Last Updated: '') (js ''Last Updated: '' @ timeStr sampleEnv 1700000500)
                         (rewriteFirst (js ''update_time: '') (js ''update_time: '' @ timeStr sampleEnv 1700000500)
                           (splitLines ?c))) = ?r"
    unfolding ts by (simp add: js_def isLineTerminator_def joinLines_def)
  have a: "updateMetadata sampleEnv ?c 1700000500 = ?r"
    using th[THEN conjunct1] step by (rule trans)
  have b: "updateMetadata sampleEnv (updateMetadata sampleEnv ?c 1700000500) 1700000500 = ?r"
    using th[THEN conjunct2] a by (rule trans)
  show ?thesis using h a b by (simp only: list_all_iff simp_thms)
qed

section \<open>Facts about the concrete inputs\<close>

lemmas sample_msgs = partsMessage_def textMessage_def textNode_def

lemmas sample_facts = sample_env_fields sample_timeStr sample_times sample_dateParts

lemma textMessage_valid: "t \<noteq> [] \<Longrightarrow> specIsValidMessage (Some (textMessage i r t))"
  by (simp add: specIsValidMessage_def sample_msgs js_def)

lemma textMessage_noNull: "noNullPart (textMessage i r t)"
  by (simp add: noNullPart_def sample_msgs)

lemma tripChat_valid:
  "validMessages sampleEnv tripChat = [textMessage ''m1'' ''user'' ''Hi'', textMessage ''m2'' ''assistant'' ''Hello'']"
  by (simp add: validMessages_def tripChat_def textNode_def sample_env_fields textMessage_valid)

lemma tripChat_restamped_valid:
  "validMessages sampleEnv (tripChat\<lparr>update_time := t\<rparr>) = validMessages sampleEnv tripChat"
  by (simp add: validMessages_def)

lemma tripChat_header_clean:
  "extractMessageUIDsFromNote
     (generateHeader sampleEnv (formatTitle sampleEnv (title tripChat)) (chat_id tripChat)
        (timeStr sampleEnv (create_time tripChat)) (timeStr sampleEnv (update_time tripChat))) = []"
  by (simp add: generateHeader_def tripChat_def sample_facts js_def)

lemma tripChat_messages_clean:
  "\<forall>m\<in>set (validMessages sampleEnv tripChat).
      msg_id m \<noteq> [] \<and> (\<forall>u\<in>set (msg_id m). \<not> isLineTerminator u)
      \<and> \<not> sublist (js '' -->'') (msg_id m @ js '' --'')
      \<and> extractMessageUIDsFromNote (messageTextOf m) = []"
  by (simp add: tripChat_valid sample_msgs messageTextOf_def messageText_def js_def
        isLineTerminator_def sublist_Cons_right)

lemma tripNote_uids: "extractMessageUIDsFromNote tripNote = [js ''m1'', js ''m2'']"
proof -
  have "extractMessageUIDsFromNote (renderedNote sampleEnv tripChat)
        = map msg_id (validMessages sampleEnv tripChat)"
    by (rule rendered_note_uids[OF tripChat_header_clean sample_stamps tripChat_messages_clean])
  then show ?thesis by (simp add: tripNote_def tripChat_valid sample_msgs)
qed

lemma tripNoteRestamped_uids: "extractMessageUIDsFromNote tripNoteRestamped = [js ''m1'', js ''m2'']"
proof -
  let ?c = "tripChat\<lparr>update_time := 1700000500\<rparr>"
  have h: "extractMessageUIDsFromNote
     (generateHeader sampleEnv (formatTitle sampleEnv (title ?c)) (chat_id ?c)
        (timeStr sampleEnv (create_time ?c)) (timeStr sampleEnv (update_time ?c))) = []"
    by (simp add: generateHeader_def tripChat_def sample_facts js_def)
  have m: "\<forall>m\<in>set (validMessages sampleEnv ?c).
      msg_id m \<noteq> [] \<and> (\<forall>u\<in>set (msg_id m). \<not> isLineTerminator u)
      \<and> \<not> sublist (js '' -->'') (msg_id m @ js '' --'')
      \<and> extractMessageUIDsFromNote (messageTextOf m) = []"
    unfolding tripChat_restamped_valid by (rule tripChat_messages_clean)
  have "extractMessageUIDsFromNote (renderedNote sampleEnv ?c) = map msg_id (validMessages sampleEnv ?c)"
    by (rule rendered_note_uids[OF h sample_stamps m])
  then show ?thesis
    by (simp add: tripNoteRestamped_def tripChat_restamped_valid tripChat_valid sample_msgs)
qed

lemma tripChat_fields:
  "chat_id tripChat = js ''c1''" "title tripChat = js ''Trip''"
  "create_time tripChat = 1700000000" "update_time tripChat = 1700000000"
  "chat_id tripChatLater = js ''c1''" "title tripChatLater = js ''Trip''"
  "create_time tripChatLater = 1700000000" "update_time tripChatLater = 1700000500"
  "chat_id tripChatTouched = js ''c1''" "title tripChatTouched = js ''Trip''"
  "create_time tripChatTouched = 1700000000"
  by (simp_all add: tripChat_def tripChatLater_def tripChatTouched_def)

lemma tripChatTouched_time:
  "timeStr sampleEnv (update_time tripChatTouched) = js ''2023-11-14 at 22:13:20''"
  "dateAndTime sampleEnv (update_time tripChatTouched) = js ''2023-11-14 22:13:20''"
  "formatTimestamp sampleEnv (update_time tripChatTouched) FDate = js ''2023-11-14''"
proof -
  have u: "update_time tripChatTouched = 1700000000 + 1 / 2" by (simp add: tripChatTouched_def tripChat_def)
  show "timeStr sampleEnv (update_time tripChatTouched) = js ''2023-11-14 at 22:13:20''"
    by (simp only: u sample_timeStr)
  show "formatTimestamp sampleEnv (update_time tripChatTouched) FDate = js ''2023-11-14''"
    by (simp only: u sample_times)
  have "dateAndTime sampleEnv (1700000000 + 1 / 2) = js ''2023-11-14'' @ js '' '' @ js ''22:13:20''"
    by (simp only: dateAndTime_def sample_times)
  then show "dateAndTime sampleEnv (update_time tripChatTouched) = js ''2023-11-14 22:13:20''"
    by (simp add: u js_def)
qed

lemma tripHeader_restamp:
  assumes "timeStr sampleEnv t = js ''2023-11-14 at 22:21:40''"
  shows "updateMetadata sampleEnv
           (generateHeader sampleEnv (js ''Trip'') (js ''c1'') (js ''2023-11-14 at 22:13:20'')
              (js ''2023-11-14 at 22:13:20'') @ B) t
         = generateHeader sampleEnv (js ''Trip'') (js ''c1'') (js ''2023-11-14 at 22:13:20'')
              (js ''2023-11-14 at 22:21:40'') @ B"
  by (simp add: assms generateHeader_def updateMetadata_def replaceLine_def sample_env_fields
        js_def isLineTerminator_def)

lemma tripHeader_touch:
  assumes "timeStr sampleEnv t = js ''2023-11-14 at 22:13:20''"
  shows "updateMetadata sampleEnv
           (generateHeader sampleEnv (js ''Trip'') (js ''c1'') (js ''2023-11-14 at 22:13:20'')
              (js ''2023-11-14 at 22:13:20'') @ B) t
         = generateHeader sampleEnv (js ''Trip'') (js ''c1'') (js ''2023-11-14 at 22:13:20'')
              (js ''2023-11-14 at 22:13:20'') @ B"
  by (simp add: assms generateHeader_def updateMetadata_def replaceLine_def sample_env_fields
        js_def isLineTerminator_def)

lemma tripNote_header:
  "tripNote = generateHeader sampleEnv (js ''Trip'') (js ''c1'') (js ''2023-11-14 at 22:13:20'')
                (js ''2023-11-14 at 22:13:20'')
              @ concat (map (messageBlock sampleEnv) (validMessages sampleEnv tripChat))"
  by (simp only: tripNote_def renderedNote_def tripChat_fields sample_facts)

lemma tripNoteRestamped_header:
  "tripNoteRestamped = generateHeader sampleEnv (js ''Trip'') (js ''c1'') (js ''2023-11-14 at 22:13:20'')
                (js ''2023-11-14 at 22:21:40'')
              @ concat (map (messageBlock sampleEnv) (validMessages sampleEnv tripChat))"
  by (simp add: tripNoteRestamped_def renderedNote_def tripChat_fields sample_facts
        tripChat_restamped_valid)

lemma tripNote_restamped: "updateMetadata sampleEnv tripNote 1700000500 = tripNoteRestamped"
  unfolding tripNote_header tripNoteRestamped_header
  by (rule tripHeader_restamp[OF sample_timeStr(2)])

lemma tripNote_touched: "updateMetadata sampleEnv tripNote (update_time tripChatTouched) = tripNote"
  unfolding tripNote_header
  by (rule tripHeader_touch[OF tripChatTouched_time(1)])

lemma tripNote_differs: "tripNoteRestamped \<noteq> tripNote"
  unfolding tripNote_header tripNoteRestamped_header
  by (simp add: generateHeader_def js_def)

section \<open>Round trip of the message ids\<close>

lemma quotingChat_valid:
  "validMessages sampleEnv quotingChat = [textMessage ''q1'' ''user'' ''<!-- UID: zz -->'']"
  by (simp add: validMessages_def quotingChat_def textNode_def sample_env_fields textMessage_valid)

text \<open>Counterexample to C6 as stated: a message whose text quotes a marker.  The
  conversation has the one valid message \<open>q1\<close>; its note is rendered, and the scan of the
  note finds two ids.\<close>

theorem marker_in_message_text_counterexample:
  "map msg_id (validMessages sampleEnv quotingChat) = [js ''q1'']
   \<and> generateMarkdownContent sampleEnv quotingChat = Ok (renderedNote sampleEnv quotingChat)
   \<and> extractMessageUIDsFromNote (renderedNote sampleEnv quotingChat) = [js ''zz'', js ''q1'']"
proof -
  let ?m = "textMessage ''q1'' ''user'' ''<!-- UID: zz -->''"
  let ?h = "generateHeader sampleEnv (formatTitle sampleEnv (title quotingChat)) (chat_id quotingChat)
              (timeStr sampleEnv (create_time quotingChat)) (timeStr sampleEnv (update_time quotingChat))"
  note v = quotingChat_valid
  have h: "extractMessageUIDsFromNote ?h = []"
    by (simp add: generateHeader_def quotingChat_def sample_facts js_def)
  obtain X where X: "?h = X @ [10]" using header_line by blast
  have lt: "isLineTerminator 10" by (simp add: isLineTerminator_def)
  have hx: "extractMessageUIDsFromNote X = []"
    using h scan_line[OF lt, of X "[]"] by (simp add: X)
  have b: "extractMessageUIDsFromNote (messageBlock sampleEnv ?m) = [js ''zz'', js ''q1'']"
    by (simp add: messageBlock_def blockBody_def quoteLines_def messageTime_def headingLevel_def
          quoteChar_def authorName_def uidMarker_def sample_msgs sample_facts js_def
          isLineTerminator_def)
  have "extractMessageUIDsFromNote (renderedNote sampleEnv quotingChat)
        = extractMessageUIDsFromNote (X @ 10 # messageBlock sampleEnv ?m)"
    by (simp add: renderedNote_def X v)
  also have "\<dots> = extractMessageUIDsFromNote X @ extractMessageUIDsFromNote (messageBlock sampleEnv ?m)"
    by (rule scan_line[OF lt])
  finally have s: "extractMessageUIDsFromNote (renderedNote sampleEnv quotingChat) = [js ''zz'', js ''q1'']"
    using hx b by simp
  have g: "generateMarkdownContent sampleEnv quotingChat = Ok (renderedNote sampleEnv quotingChat)"
    by (simp add: generateMarkdownContent_eq v textMessage_noNull)
  have i: "map msg_id (validMessages sampleEnv quotingChat) = [js ''q1'']"
    by (simp add: v sample_msgs)
  show ?thesis using i g s by (intro conjI)
qed

text \<open>
  Claim C6, amended.  Let the rendered header hold no marker, let no formatted time stamp
  hold the character \<^verbatim>\<open><\<close>, and let every valid message have an id that is not empty,
  holds no line terminator and does not close the marker early (the text \<^verbatim>\<open> -->\<close> does
  not occur in the id followed by \<^verbatim>\<open> --\<close>), and a text in which the scan finds no
  marker.  Then \<^verbatim>\<open>generateMarkdownContent\<close> returns a note whenever no valid message
  has a \<^verbatim>\<open>null\<close> among its parts, and scanning a note that it returns yields exactly
  the ids of the valid messages, once each and in their order.
\<close>

theorem rendered_note_roundtrip:
  assumes "extractMessageUIDsFromNote
             (generateHeader E (formatTitle E (title chat)) (chat_id chat)
                (timeStr E (create_time chat)) (timeStr E (update_time chat))) = []"
      and "\<forall>t f. 60 \<notin> set (formatTimestamp E t f)"
      and "\<forall>m\<in>set (validMessages E chat).
              msg_id m \<noteq> [] \<and> (\<forall>u\<in>set (msg_id m). \<not> isLineTerminator u)
              \<and> \<not> sublist (js '' -->'') (msg_id m @ js '' --'')
              \<and> extractMessageUIDsFromNote (messageTextOf m) = []"
  shows "(list_all noNullPart (validMessages E chat)
            \<longrightarrow> (\<exists>note. generateMarkdownContent E chat = Ok note))
       \<and> (\<forall>note. generateMarkdownContent E chat = Ok note
            \<longrightarrow> extractMessageUIDsFromNote note = map msg_id (validMessages E chat))"
proof -
  have "extractMessageUIDsFromNote (renderedNote E chat) = map msg_id (validMessages E chat)"
    using assms by (rule rendered_note_uids)
  then show ?thesis
    by (auto simp: generateMarkdownContent_eq split: if_splits)
qed

text \<open>Witness for C6: the conversation of the example in section 8 of the spec.\<close>

theorem rendered_note_roundtrip_witness:
  "extractMessageUIDsFromNote
     (generateHeader sampleEnv (formatTitle sampleEnv (title tripChat)) (chat_id tripChat)
        (timeStr sampleEnv (create_time tripChat)) (timeStr sampleEnv (update_time tripChat))) = []
   \<and> map msg_id (validMessages sampleEnv tripChat) = [js ''m1'', js ''m2'']
   \<and> list_all noNullPart (validMessages sampleEnv tripChat)
   \<and> generateMarkdownContent sampleEnv tripChat = Ok tripNote
   \<and> extractMessageUIDsFromNote tripNote = [js ''m1'', js ''m2'']"
proof -
  note th = rendered_note_roundtrip[OF tripChat_header_clean sample_stamps tripChat_messages_clean]
  have n: "list_all noNullPart (validMessages sampleEnv tripChat)"
    by (simp add: tripChat_valid textMessage_noNull)
  have g: "generateMarkdownContent sampleEnv tripChat = Ok tripNote"
    by (simp add: generateMarkdownContent_eq n tripNote_def)
  have i: "map msg_id (validMessages sampleEnv tripChat) = [js ''m1'', js ''m2'']"
    by (simp add: tripChat_valid sample_msgs)
  have "extractMessageUIDsFromNote tripNote = map msg_id (validMessages sampleEnv tripChat)"
    using th[THEN conjunct2] g by blast
  then have s: "extractMessageUIDsFromNote tripNote = [js ''m1'', js ''m2'']"
    by (simp only: i)
  show ?thesis using tripChat_header_clean i n g s by (intro conjI)
qed

section \<open>Messages without text, and author labels\<close>

text \<open>Counterexample to C8 as stated: the one message of \<open>silentChat\<close> has no content;
  it is not valid, and the note renders no block for it.\<close>

theorem message_without_content_omitted_counterexample:
  "length (mapping silentChat) = 1
   \<and> generateMessagesContent sampleEnv silentChat = Ok []
   \<and> validMessageCount sampleEnv silentChat = 0"
  by (simp add: silentChat_def generateMessagesContent_def validMessageCount_def
        sample_env_fields specIsValidMessage_def)

lemma placeholder_no_content:
  assumes "msg_content m = None \<or> (\<exists>c. msg_content m = Some c \<and> parts c = None)"
  shows "formatMessage E (Some m)
          = Ok (headingLevel m @ js '' '' @ authorName m @ js '', on '' @ messageTime E m @ js '';'' @ [10]
                @ quoteChar m @ js '' [No content]''
                @ uidMarker m
                @ (if authorName m = js ''ChatGPT'' then [10] @ js ''---'' @ [10] else [])
                @ [10, 10])"
  using assms by (auto simp: formatMessage_def messageBody_def)

lemma placeholder_no_text:
  assumes "msg_content m = Some c" "parts c = Some ps" "list_all (\<lambda>p. p \<noteq> PNull) ps"
          "messageText ps = []"
  shows "formatMessage E (Some m)
          = Ok (headingLevel m @ js '' '' @ authorName m @ js '', on '' @ messageTime E m @ js '';'' @ [10]
                @ quoteChar m @ js '' [No text content]''
                @ uidMarker m
                @ (if authorName m = js ''ChatGPT'' then [10] @ js ''---'' @ [10] else [])
                @ [10, 10])"
  using assms
  by (simp add: formatMessage_def messageBody_def filterParts_eq quoteLines_def messageText_def)

lemma null_part_throws:
  assumes "msg_content m = Some c" "parts c = Some ps" "PNull \<in> set ps"
  shows "formatMessage E (Some m) = Throw nullPartError"
  using assms
  by (auto simp: formatMessage_def messageBody_def filterParts_eq list_all_iff)

text \<open>
  Claim C8, amended.  \<^verbatim>\<open>generateMessagesContent\<close> renders one block for each message
  that passes \<^verbatim>\<open>isValidMessage\<close>, in the order of the mapping, and leaves the other
  messages out; when a valid message has a \<^verbatim>\<open>null\<close> among its parts it throws the
  \<^verbatim>\<open>TypeError\<close> of \<^verbatim>\<open>formatMessage\<close> instead.  \<^verbatim>\<open>formatMessage\<close> itself, given a
  message without content or without a parts array, returns a block with the placeholder
  line \<^verbatim>\<open>[No content]\<close> followed by the marker line; given parts without a
  \<^verbatim>\<open>null\<close> that yield no text, it returns a block with the placeholder line
  \<^verbatim>\<open>[No text content]\<close> followed by the marker line; given parts with a \<^verbatim>\<open>null\<close>
  among them, it throws.
\<close>

theorem rendered_blocks_are_valid_messages:
  "generateMessagesContent E chat
     = (if list_all noNullPart (validMessages E chat)
        then Ok (concat (map (messageBlock E) (validMessages E chat)))
        else Throw nullPartError)
   \<and> formatMessage E (Some m) = (if noNullPart m then Ok (messageBlock E m) else Throw nullPartError)
   \<and> (msg_content m = None \<or> (\<exists>c. msg_content m = Some c \<and> parts c = None) \<longrightarrow>
        formatMessage E (Some m)
          = Ok (headingLevel m @ js '' '' @ authorName m @ js '', on '' @ messageTime E m @ js '';'' @ [10]
                @ quoteChar m @ js '' [No content]''
                @ uidMarker m
                @ (if authorName m = js ''ChatGPT'' then [10] @ js ''---'' @ [10] else [])
                @ [10, 10]))
   \<and> (\<forall>c ps. msg_content m = Some c \<and> parts c = Some ps \<and> list_all (\<lambda>p. p \<noteq> PNull) ps
               \<and> messageText ps = [] \<longrightarrow>
        formatMessage E (Some m)
          = Ok (headingLevel m @ js '' '' @ authorName m @ js '', on '' @ messageTime E m @ js '';'' @ [10]
                @ quoteChar m @ js '' [No text content]''
                @ uidMarker m
                @ (if authorName m = js ''ChatGPT'' then [10] @ js ''---'' @ [10] else [])
                @ [10, 10]))
   \<and> (\<forall>c ps. msg_content m = Some c \<and> parts c = Some ps \<and> PNull \<in> set ps \<longrightarrow>
        formatMessage E (Some m) = Throw nullPartError)"
  using generateMessagesContent_eq formatMessage_eq placeholder_no_content placeholder_no_text
    null_part_throws
  by (intro conjI allI impI; (elim conjE)?) blast+

lemma brokenChat_valid:
  "validMessages sampleEnv brokenChat = [partsMessage ''b1'' ''assistant'' [PString (js ''Hi''), PNull]]"
  by (simp add: validMessages_def brokenChat_def sample_env_fields specIsValidMessage_def
        partsMessage_def js_def)

lemma sample_blocks:
  "messageBlock sampleEnv (textMessage ''m1'' ''user'' ''Hi'')
     = js ''### User, on 2023-11-14 at 22:13:20;'' @ [10] @ js ''> Hi'' @ [10]
       @ js ''<!-- UID: m1 -->'' @ [10] @ [10, 10]"
  "messageBlock sampleEnv (textMessage ''m2'' ''assistant'' ''Hello'')
     = js ''#### ChatGPT, on 2023-11-14 at 22:13:20;'' @ [10] @ js ''>> Hello'' @ [10]
       @ js ''<!-- UID: m2 -->'' @ [10] @ [10] @ js ''---'' @ [10] @ [10, 10]"
  "messageBlock sampleEnv (textMessage ''m3'' ''user'' ''Thanks'')
     = js ''### User, on 2023-11-14 at 22:13:20;'' @ [10] @ js ''> Thanks'' @ [10]
       @ js ''<!-- UID: m3 -->'' @ [10] @ [10, 10]"
  by (simp_all add: messageBlock_def blockBody_def quoteLines_def messageTime_def headingLevel_def
        quoteChar_def authorName_def uidMarker_def sample_msgs sample_facts js_def)

text \<open>Witness for C8: the two blocks of \<open>tripChat\<close>; the blocks that
  \<^verbatim>\<open>formatMessage\<close> returns for the message of \<open>silentChat\<close> and for a message whose
  only part is an image; and the error thrown for the message of \<open>brokenChat\<close>.\<close>

theorem rendered_blocks_witness:
  "validMessages sampleEnv tripChat
     = [textMessage ''m1'' ''user'' ''Hi'', textMessage ''m2'' ''assistant'' ''Hello'']
   \<and> generateMessagesContent sampleEnv tripChat
       = Ok (js ''### User, on 2023-11-14 at 22:13:20;'' @ [10] @ js ''> Hi'' @ [10]
             @ js ''<!-- UID: m1 -->'' @ [10] @ [10, 10]
             @ js ''#### ChatGPT, on 2023-11-14 at 22:13:20;'' @ [10] @ js ''>> Hello'' @ [10]
             @ js ''<!-- UID: m2 -->'' @ [10] @ [10] @ js ''---'' @ [10] @ [10, 10])
   \<and> formatMessage sampleEnv (Some ((textMessage ''s1'' ''user'' [])\<lparr>msg_content := None\<rparr>))
       = Ok (js ''### User, on 2023-11-14 at 22:13:20;'' @ [10] @ js ''> [No content]'' @ [10]
             @ js ''<!-- UID: s1 -->'' @ [10] @ [10, 10])
   \<and> formatMessage sampleEnv
         (Some (partsMessage ''i1'' ''assistant'' [PObject (Some (js ''image_asset_pointer'')) None]))
       = Ok (js ''#### ChatGPT, on 2023-11-14 at 22:13:20;'' @ [10] @ js ''>> [No text content]'' @ [10]
             @ js ''<!-- UID: i1 -->'' @ [10] @ [10] @ js ''---'' @ [10] @ [10, 10])
   \<and> formatMessage sampleEnv (Some (partsMessage ''b1'' ''assistant'' [PString (js ''Hi''), PNull]))
       = Throw nullPartError
   \<and> generateMessagesContent sampleEnv brokenChat = Throw nullPartError"
proof -
  let ?s = "(textMessage ''s1'' ''user'' [])\<lparr>msg_content := None\<rparr>"
  let ?i = "partsMessage ''i1'' ''assistant'' [PObject (Some (js ''image_asset_pointer'')) None]"
  let ?b = "partsMessage ''b1'' ''assistant'' [PString (js ''Hi''), PNull]"
  note ths = rendered_blocks_are_valid_messages[of sampleEnv tripChat ?s]
  note thi = rendered_blocks_are_valid_messages[of sampleEnv brokenChat ?i]
  note thb = rendered_blocks_are_valid_messages[of sampleEnv brokenChat ?b]
  have n: "list_all noNullPart (validMessages sampleEnv tripChat)"
    by (simp add: tripChat_valid textMessage_noNull)
  have "generateMessagesContent sampleEnv tripChat
          = Ok (concat (map (messageBlock sampleEnv) (validMessages sampleEnv tripChat)))"
    using ths[THEN conjunct1] n by simp
  then have g: "generateMessagesContent sampleEnv tripChat
       = Ok (js ''### User, on 2023-11-14 at 22:13:20;'' @ [10] @ js ''> Hi'' @ [10]
             @ js ''<!-- UID: m1 -->'' @ [10] @ [10, 10]
             @ js ''#### ChatGPT, on 2023-11-14 at 22:13:20;'' @ [10] @ js ''>> Hello'' @ [10]
             @ js ''<!-- UID: m2 -->'' @ [10] @ [10] @ js ''---'' @ [10] @ [10, 10])"
    by (simp add: tripChat_valid sample_blocks)
  have "formatMessage sampleEnv (Some ?s)
          = Ok (headingLevel ?s @ js '' '' @ authorName ?s @ js '', on '' @ messageTime sampleEnv ?s @ js '';'' @ [10]
            @ quoteChar ?s @ js '' [No content]''
            @ uidMarker ?s
            @ (if authorName ?s = js ''ChatGPT'' then [10] @ js ''---'' @ [10] else [])
            @ [10, 10])"
    using ths[THEN conjunct2, THEN conjunct2, THEN conjunct1] by simp
  also have "\<dots> = Ok (js ''### User, on 2023-11-14 at 22:13:20;'' @ [10] @ js ''> [No content]'' @ [10]
             @ js ''<!-- UID: s1 -->'' @ [10] @ [10, 10])"
    by (simp add: headingLevel_def quoteChar_def authorName_def messageTime_def uidMarker_def
          sample_msgs sample_facts js_def)
  finally have s: "formatMessage sampleEnv (Some ?s)
       = Ok (js ''### User, on 2023-11-14 at 22:13:20;'' @ [10] @ js ''> [No content]'' @ [10]
             @ js ''<!-- UID: s1 -->'' @ [10] @ [10, 10])" .
  have it: "msg_content ?i = Some \<lparr>content_type = Some (js ''text''),
                                  parts = Some [PObject (Some (js ''image_asset_pointer'')) None]\<rparr>
            \<and> parts \<lparr>content_type = Some (js ''text''),
                      parts = Some [PObject (Some (js ''image_asset_pointer'')) None]\<rparr>
                = Some [PObject (Some (js ''image_asset_pointer'')) None]
            \<and> list_all (\<lambda>p. p \<noteq> PNull) [PObject (Some (js ''image_asset_pointer'')) None]
            \<and> messageText [PObject (Some (js ''image_asset_pointer'')) None] = []"
    by (simp add: partsMessage_def messageText_def js_def)
  have "formatMessage sampleEnv (Some ?i)
          = Ok (headingLevel ?i @ js '' '' @ authorName ?i @ js '', on '' @ messageTime sampleEnv ?i @ js '';'' @ [10]
            @ quoteChar ?i @ js '' [No text content]''
            @ uidMarker ?i
            @ (if authorName ?i = js ''ChatGPT'' then [10] @ js ''---'' @ [10] else [])
            @ [10, 10])"
    using thi[THEN conjunct2, THEN conjunct2, THEN conjunct2, THEN conjunct1] it by blast
  also have "\<dots> = Ok (js ''#### ChatGPT, on 2023-11-14 at 22:13:20;'' @ [10] @ js ''>> [No text content]'' @ [10]
             @ js ''<!-- UID: i1 -->'' @ [10] @ [10] @ js ''---'' @ [10] @ [10, 10])"
    by (simp add: headingLevel_def quoteChar_def authorName_def messageTime_def uidMarker_def
          sample_msgs sample_facts js_def)
  finally have i: "formatMessage sampleEnv (Some ?i)
       = Ok (js ''#### ChatGPT, on 2023-11-14 at 22:13:20;'' @ [10] @ js ''>> [No text content]'' @ [10]
             @ js ''<!-- UID: i1 -->'' @ [10] @ [10] @ js ''---'' @ [10] @ [10, 10])" .
  have bt: "msg_content ?b = Some \<lparr>content_type = Some (js ''text''), parts = Some [PString (js ''Hi''), PNull]\<rparr>
            \<and> parts \<lparr>content_type = Some (js ''text''), parts = Some [PString (js ''Hi''), PNull]\<rparr>
                = Some [PString (js ''Hi''), PNull]
            \<and> PNull \<in> set [PString (js ''Hi''), PNull]"
    by (simp add: partsMessage_def)
  have b: "formatMessage sampleEnv (Some ?b) = Throw nullPartError"
    using thb[THEN conjunct2, THEN conjunct2, THEN conjunct2, THEN conjunct2] bt by blast
  have nb: "\<not> list_all noNullPart (validMessages sampleEnv brokenChat)"
    by (simp add: brokenChat_valid noNullPart_def partsMessage_def)
  have gb: "generateMessagesContent sampleEnv brokenChat = Throw nullPartError"
    using thb[THEN conjunct1] nb by simp
  show ?thesis using tripChat_valid g s i b gb by (intro conjI)
qed

text \<open>Counterexample to C9 as stated: the roles \<^verbatim>\<open>system\<close> and \<^verbatim>\<open>human\<close> and a role
  that is \<^verbatim>\<open>null\<close> get the label of the assistant, and rendering a message of the role
  \<^verbatim>\<open>system\<close> fails when a part of it is \<^verbatim>\<open>null\<close>.\<close>

theorem other_role_labelled_as_assistant_counterexample:
  "authorName (textMessage ''x1'' ''system'' ''note'') = js ''ChatGPT''
   \<and> authorName (textMessage ''x2'' ''human'' ''Hi'') = js ''ChatGPT''
   \<and> authorName (textMessage ''x3'' ''assistant'' ''Hello'') = js ''ChatGPT''
   \<and> authorName ((textMessage ''x4'' ''none'' ''Hi'')\<lparr>msg_author := Some \<lparr>role = Some RoleOther\<rparr>\<rparr>)
       = js ''ChatGPT''
   \<and> formatMessage sampleEnv (Some (partsMessage ''x5'' ''system'' [PNull])) = Throw nullPartError"
  by (simp add: authorName_def sample_msgs js_def formatMessage_eq noNullPart_def)

text \<open>
  Claim C9, amended.  A message whose author has a role other than \<^verbatim>\<open>user\<close> (another
  string, or a value that is no string) is attributed to \<^verbatim>\<open>ChatGPT\<close>, the label of the
  assistant, and not to the generic label \<^verbatim>\<open>Unknown\<close>.  Rendering it fails exactly when
  a \<^verbatim>\<open>null\<close> is among the parts of its content; otherwise \<^verbatim>\<open>formatMessage\<close> returns
  a block that starts with the heading of an assistant message.
\<close>

theorem role_other_than_user_is_ChatGPT:
  assumes "msg_author m = Some a" and "role a = Some v" and "v \<noteq> RoleString (js ''user'')"
  shows "authorName m = js ''ChatGPT''
       \<and> authorName m \<noteq> js ''Unknown''
       \<and> authorName m \<noteq> js ''User''
       \<and> (noNullPart m \<longrightarrow>
            (\<exists>block. formatMessage E (Some m) = Ok block \<and> prefix (js ''#### ChatGPT, on '') block))
       \<and> (\<not> noNullPart m \<longrightarrow> formatMessage E (Some m) = Throw nullPartError)"
proof -
  have a: "authorName m = js ''ChatGPT''" using assms by (simp add: authorName_def)
  have ne: "js ''ChatGPT'' \<noteq> js ''User''" "js ''ChatGPT'' \<noteq> js ''Unknown''"
    by (simp_all add: js_def)
  have p: "prefix (js ''#### ChatGPT, on '') (messageBlock E m)"
    using a ne by (simp add: messageBlock_def headingLevel_def) (simp add: js_def)
  show ?thesis using a ne p by (simp add: formatMessage_eq)
qed

text \<open>Witness for C9: a message of the role \<^verbatim>\<open>system\<close>.\<close>

theorem role_other_than_user_witness:
  "msg_author (textMessage ''x1'' ''system'' ''note'') = Some \<lparr>role = Some (RoleString (js ''system''))\<rparr>
   \<and> RoleString (js ''system'') \<noteq> RoleString (js ''user'')
   \<and> noNullPart (textMessage ''x1'' ''system'' ''note'')
   \<and> authorName (textMessage ''x1'' ''system'' ''note'') = js ''ChatGPT''
   \<and> formatMessage sampleEnv (Some (textMessage ''x1'' ''system'' ''note''))
       = Ok (js ''#### ChatGPT, on 2023-11-14 at 22:13:20;'' @ [10] @ js ''>> note'' @ [10]
             @ js ''<!-- UID: x1 -->'' @ [10] @ [10] @ js ''---'' @ [10] @ [10, 10])
   \<and> prefix (js ''#### ChatGPT, on '')
        (js ''#### ChatGPT, on 2023-11-14 at 22:13:20;'' @ [10] @ js ''>> note'' @ [10]
             @ js ''<!-- UID: x1 -->'' @ [10] @ [10] @ js ''---'' @ [10] @ [10, 10])"
proof -
  let ?m = "textMessage ''x1'' ''system'' ''note''"
  let ?t = "js ''#### ChatGPT, on 2023-11-14 at 22:13:20;'' @ [10] @ js ''>> note'' @ [10]
             @ js ''<!-- UID: x1 -->'' @ [10] @ [10] @ js ''---'' @ [10] @ [10, 10]"
  have a: "msg_author ?m = Some \<lparr>role = Some (RoleString (js ''system''))\<rparr>"
    by (simp add: sample_msgs)
  have r: "role \<lparr>role = Some (RoleString (js ''system''))\<rparr> = Some (RoleString (js ''system''))" by simp
  have n: "RoleString (js ''system'') \<noteq> RoleString (js ''user'')" by (simp add: js_def)
  note th = role_other_than_user_is_ChatGPT[OF a r n, of sampleEnv]
  have nn: "noNullPart ?m" by (rule textMessage_noNull)
  from th nn obtain block where b: "formatMessage sampleEnv (Some ?m) = Ok block"
      and p: "prefix (js ''#### ChatGPT, on '') block" by blast
  have "messageBlock sampleEnv ?m = ?t"
    by (simp add: messageBlock_def blockBody_def quoteLines_def messageTime_def
          headingLevel_def quoteChar_def authorName_def uidMarker_def sample_msgs sample_facts js_def)
  then have f: "formatMessage sampleEnv (Some ?m) = Ok ?t"
    using nn by (simp only: formatMessage_eq if_True)
  have "block = ?t" using b f by simp
  then have p': "prefix (js ''#### ChatGPT, on '') ?t" using p by simp
  show ?thesis using a n nn th[THEN conjunct1] f p' by (intro conjI)
qed

section \<open>Reconciling a catalogued conversation\<close>

lemma writeToFile_frame:
  "writeToFile E p c s = (r, s') \<Longrightarrow>
     conversationCatalog s' = conversationCatalog s \<and> importReport s' = importReport s
     \<and> conversationCounters s' = conversationCounters s \<and> messageCounters s' = messageCounters s"
  by (auto simp: writeToFile_def split: option.splits vnode.splits)

lemma updateExistingNote_catalog:
  "conversationCatalog (updateExistingNote E chat p n s) = conversationCatalog s"
  by (auto simp: updateExistingNote_def Let_def
           split: option.splits vnode.splits prod.splits result.splits dest: writeToFile_frame)

lemma handleExistingChat_catalog:
  "conversationCatalog (handleExistingChat E chat v s) = conversationCatalog s"
  by (cases v) (simp_all add: handleExistingChat_def Let_def updateExistingNote_catalog)

lemma catalogued_existing:
  "catalogued s (chat_id chat) = Some v \<Longrightarrow>
   processSingleChat E chat s
     = (handleExistingChat E chat v s)
         \<lparr>conversationCounters := (conversationCounters (handleExistingChat E chat v s))
            \<lparr>totalConversationsProcessed :=
               totalConversationsProcessed (conversationCounters (handleExistingChat E chat v s)) + 1\<rparr>\<rparr>"
  by (simp add: processSingleChat_def tryProcessSingleChat_def Let_def)

lemma catalogued_stays:
  "catalogued s (chat_id chat) = Some v \<Longrightarrow>
   conversationCatalog (processSingleChat E chat s) = conversationCatalog s"
  by (simp add: catalogued_existing handleExistingChat_catalog)

lemma catalogued_entry:
  "conversationCatalog s cid = Some (Entry r) \<Longrightarrow> catalogued s cid = Some (Entry r)"
  by (simp add: catalogued_def)

lemma sample_ids:
  "js ''c1'' \<notin> set objectPrototypeMembers" "js ''c2'' \<notin> set objectPrototypeMembers"
  "js ''c5'' \<notin> set objectPrototypeMembers"
  by (simp_all add: objectPrototypeMembers_def js_def)

lemma tripChat_mapping:
  "mapping tripChat = [textNode ''m1'' ''user'' ''Hi'', textNode ''m2'' ''assistant'' ''Hello'']"
  "mapping tripChatTouched = [textNode ''m1'' ''user'' ''Hi'', textNode ''m2'' ''assistant'' ''Hello'']"
  "mapping tripChatLater = [textNode ''m1'' ''user'' ''Hi'', textNode ''m2'' ''assistant'' ''Hello'',
                            textNode ''m3'' ''user'' ''Thanks'']"
  by (simp_all add: tripChat_def tripChatTouched_def tripChatLater_def)

lemma tripChat_count:
  "validMessageCount sampleEnv tripChat = 2"
  "validMessageCount sampleEnv tripChatTouched = 2"
  "validMessageCount sampleEnv tripChatLater = 3"
  by (simp_all add: validMessageCount_def tripChat_mapping textNode_def sample_env_fields
        textMessage_valid)

lemma tripChat_titles:
  "titleOrUntitled tripChat = js ''Trip''" "titleOrUntitled tripChatLater = js ''Trip''"
  "titleOrUntitled tripChatTouched = js ''Trip''"
  by (simp_all add: titleOrUntitled_def tripChat_fields js_def)

lemma sample_dateAndTime:
  "dateAndTime sampleEnv 1700000000 = js ''2023-11-14 22:13:20''"
  "dateAndTime sampleEnv 1700000500 = js ''2023-11-14 22:21:40''"
  "dateAndTime sampleEnv 1704067200 = js ''2024-01-01 00:00:00''"
  unfolding dateAndTime_def sample_times by (simp_all add: js_def)

lemma tripChat_rendered: "generateMarkdownContent sampleEnv tripChat = Ok tripNote"
  by (simp add: generateMarkdownContent_eq tripChat_valid textMessage_noNull tripNote_def)

lemma tripChat_path:
  "generateFilePath sampleEnv (js ''Trip'') 1700000000 (js ''YYYY-MM-DD'') (js ''Nexus AI Chat Imports'')
     emptyPlugin
   = (Ok (js ''Nexus AI Chat Imports/2023/11/Trip.md''), emptyPlugin)"
  by (simp add: generateFilePath_def sample_facts emptyPlugin_def js_def)

lemma cataloguedPlugin_state:
  "cataloguedPlugin =
     emptyPlugin\<lparr>
       vault := [js ''Nexus AI Chat Imports/2023/11/Trip.md'' \<mapsto> TFile tripNote],
       vault_writes := [(js ''Nexus AI Chat Imports/2023/11/Trip.md'', tripNote)],
       conversationCatalog := [js ''c1'' \<mapsto>
          Entry \<lparr>conversationId = js ''c1'', path = js ''Nexus AI Chat Imports/2023/11/Trip.md'',
                  updateTime = 1700000000, provider = js ''chatgpt''\<rparr>],
       importReport := emptyReport\<lparr>created :=
          [\<lparr>re_title = js ''Trip'', re_filePath = js ''Nexus AI Chat Imports/2023/11/Trip.md'',
            re_createDate = js ''2023-11-14 22:13:20'', re_updateDate = js ''2023-11-14 22:13:20'',
            re_messageCount = Some 2, re_reason = None, re_errorMessage = None\<rparr>]\<rparr>,
       conversationCounters := (conversationCounters emptyPlugin)
          \<lparr>totalNewConversationsToImport := 1, totalNewConversationsSuccessfullyImported := 1,
           totalConversationsProcessed := 1\<rparr>,
       messageCounters := (messageCounters emptyPlugin)\<lparr>totalNonEmptyMessagesToImport := 2\<rparr>\<rparr>"
proof -
  have c: "catalogued emptyPlugin (chat_id tripChat) = None"
    by (simp add: catalogued_def emptyPlugin_def tripChat_fields sample_ids)
  have p: "generateFilePath sampleEnv (title tripChat) (create_time tripChat)
             (dateFormat (settings sampleEnv)) (archiveFolder (settings sampleEnv)) emptyPlugin
           = (Ok (js ''Nexus AI Chat Imports/2023/11/Trip.md''), emptyPlugin)"
    by (simp add: tripChat_fields sample_env_fields tripChat_path)
  show ?thesis
    unfolding cataloguedPlugin_def processSingleChat_def tryProcessSingleChat_def c p
    by (simp add: handleNewChat_def createNewNote_def tripChat_rendered writeToFile_def
          updateConversationCatalogEntry_def addCreated_def Let_def tripChat_count tripChat_titles
          tripChat_fields sample_dateAndTime sample_env_fields emptyPlugin_def emptyReport_def)
qed

lemma cataloguedPlugin_fields:
  "vault cataloguedPlugin = [js ''Nexus AI Chat Imports/2023/11/Trip.md'' \<mapsto> TFile tripNote]"
  "vault_writes cataloguedPlugin = [(js ''Nexus AI Chat Imports/2023/11/Trip.md'', tripNote)]"
  "conversationCatalog cataloguedPlugin = [js ''c1'' \<mapsto>
          Entry \<lparr>conversationId = js ''c1'', path = js ''Nexus AI Chat Imports/2023/11/Trip.md'',
                  updateTime = 1700000000, provider = js ''chatgpt''\<rparr>]"
  "importReport cataloguedPlugin = emptyReport\<lparr>created :=
          [\<lparr>re_title = js ''Trip'', re_filePath = js ''Nexus AI Chat Imports/2023/11/Trip.md'',
            re_createDate = js ''2023-11-14 22:13:20'', re_updateDate = js ''2023-11-14 22:13:20'',
            re_messageCount = Some 2, re_reason = None, re_errorMessage = None\<rparr>]\<rparr>"
  by (simp_all add: cataloguedPlugin_state)



lemma messageTime_io: "messageTime (E\<lparr>io_error := f\<rparr>) m = messageTime E m"
  by (simp add: messageTime_def timeStr_def split: option.splits)

lemma formatMessage_io: "formatMessage (E\<lparr>io_error := f\<rparr>) m = formatMessage E m"
  by (cases m) (simp_all add: formatMessage_def messageTime_io split: result.splits)

lemma formatEach_io: "formatEach (E\<lparr>io_error := f\<rparr>) ms = formatEach E ms"
  by (induction ms) (simp_all add: formatMessage_io split: result.splits)

lemma formatNewMessages_io: "formatNewMessages (E\<lparr>io_error := f\<rparr>) ms = formatNewMessages E ms"
  by (simp add: formatNewMessages_def formatEach_io)

lemma mergedContent_io: "mergedContent (E\<lparr>io_error := f\<rparr>) chat c = mergedContent E chat c"
  by (simp add: mergedContent_def updateMetadata_def timeStr_def getNewMessages_def
        formatNewMessages_io Let_def)

lemma tripChatLater_new:
  "getNewMessages sampleEnv tripChatLater [js ''m1'', js ''m2'']
     = [Some (textMessage ''m3'' ''user'' ''Thanks'')]"
  by (simp add: getNewMessages_def tripChat_mapping textNode_def sample_env_fields
        textMessage_valid js_def)

lemma tripChatTouched_new:
  "getNewMessages sampleEnv tripChatTouched [js ''m1'', js ''m2''] = []"
  by (simp add: getNewMessages_def tripChat_mapping textNode_def sample_env_fields js_def)

lemma tripChatLater_merged:
  "mergedContent sampleEnv tripChatLater tripNote
     = Ok (tripNoteRestamped @ [10, 10]
           @ js ''### User, on 2023-11-14 at 22:13:20;'' @ [10] @ js ''> Thanks'' @ [10]
           @ js ''<!-- UID: m3 -->'' @ [10] @ [10, 10])"
proof -
  have f: "formatNewMessages sampleEnv [Some (textMessage ''m3'' ''user'' ''Thanks'')]
           = Ok (messageBlock sampleEnv (textMessage ''m3'' ''user'' ''Thanks''))"
    by (simp add: formatNewMessages_def formatMessage_eq textMessage_noNull sample_blocks js_def)
  show ?thesis
    unfolding mergedContent_def tripChat_fields tripNote_restamped Let_def tripNoteRestamped_uids
      tripChatLater_new f
    by (simp add: sample_blocks)
qed

lemma tripChatTouched_merged: "mergedContent sampleEnv tripChatTouched tripNote = Ok tripNote"
  unfolding mergedContent_def tripNote_touched Let_def tripNote_uids tripChatTouched_new
  by simp

lemma tripNoteLater_differs:
  "tripNoteRestamped @ [10, 10]
     @ js ''### User, on 2023-11-14 at 22:13:20;'' @ [10] @ js ''> Thanks'' @ [10]
     @ js ''<!-- UID: m3 -->'' @ [10] @ [10, 10] \<noteq> tripNote"
  unfolding tripNote_header tripNoteRestamped_header
  by (simp add: generateHeader_def js_def)

lemma updateExistingNote_merge:
  assumes "vault s p = Some (TFile original)"
      and "io_error E VaultRead p = None"
      and "mergedContent E chat original = Ok merged"
      and "io_error E VaultModify p = None"
  shows "vault_writes (updateExistingNote E chat p n s)
           = vault_writes s @ (if merged \<noteq> original then [(p, merged)] else [])
       \<and> vault (updateExistingNote E chat p n s) p = Some (TFile merged)
       \<and> importReport (updateExistingNote E chat p n s)
           = (if merged \<noteq> original
              then addUpdated (titleOrUntitled chat) p (dateAndTime E (create_time chat))
                     (dateAndTime E (update_time chat)) n (importReport s)
              else addSkipped (titleOrUntitled chat) p (dateAndTime E (create_time chat))
                     (dateAndTime E (update_time chat)) n (js ''No changes needed'') (importReport s))"
  using assms
  by (simp add: updateExistingNote_def writeToFile_def Let_def)

lemma updateExistingNote_rejected:
  assumes "vault s p = Some (TFile original)"
      and "io_error E VaultRead p = None"
      and "mergedContent E chat original = Ok merged"
      and "merged \<noteq> original"
      and "io_error E VaultModify p = Some e"
  shows "vault_writes (updateExistingNote E chat p n s) = vault_writes s
       \<and> vault (updateExistingNote E chat p n s) = vault s
       \<and> importReport (updateExistingNote E chat p n s) = importReport s"
  using assms
  by (simp add: updateExistingNote_def writeToFile_def Let_def)

text \<open>Counterexample to C5 as stated: the later revision of \<open>tripChat\<close> is merged into
  its note while the vault rejects every \<^verbatim>\<open>modify\<close>.  The merged text differs from the
  text of the note, but no write completes and the report gets neither an \<open>updated\<close> nor a
  \<open>skipped\<close> entry: it stays as it was.\<close>

theorem rejected_write_leaves_no_outcome_counterexample:
  "vault cataloguedPlugin (js ''Nexus AI Chat Imports/2023/11/Trip.md'') = Some (TFile tripNote)
   \<and> mergedContent modifyFailEnv tripChatLater tripNote
       = Ok (tripNoteRestamped @ [10, 10]
             @ js ''### User, on 2023-11-14 at 22:13:20;'' @ [10] @ js ''> Thanks'' @ [10]
             @ js ''<!-- UID: m3 -->'' @ [10] @ [10, 10])
   \<and> tripNoteRestamped @ [10, 10]
         @ js ''### User, on 2023-11-14 at 22:13:20;'' @ [10] @ js ''> Thanks'' @ [10]
         @ js ''<!-- UID: m3 -->'' @ [10] @ [10, 10] \<noteq> tripNote
   \<and> vault_writes (updateExistingNote modifyFailEnv tripChatLater
                      (js ''Nexus AI Chat Imports/2023/11/Trip.md'') 3 cataloguedPlugin)
       = vault_writes cataloguedPlugin
   \<and> vault (updateExistingNote modifyFailEnv tripChatLater
                (js ''Nexus AI Chat Imports/2023/11/Trip.md'') 3 cataloguedPlugin)
       = vault cataloguedPlugin
   \<and> importReport (updateExistingNote modifyFailEnv tripChatLater
                       (js ''Nexus AI Chat Imports/2023/11/Trip.md'') 3 cataloguedPlugin)
       = importReport cataloguedPlugin"
proof -
  let ?p = "js ''Nexus AI Chat Imports/2023/11/Trip.md''"
  have v: "vault cataloguedPlugin ?p = Some (TFile tripNote)"
    by (simp add: cataloguedPlugin_fields)
  have m: "mergedContent modifyFailEnv tripChatLater tripNote
       = Ok (tripNoteRestamped @ [10, 10]
             @ js ''### User, on 2023-11-14 at 22:13:20;'' @ [10] @ js ''> Thanks'' @ [10]
             @ js ''<!-- UID: m3 -->'' @ [10] @ [10, 10])"
    unfolding modifyFailEnv_def mergedContent_io by (rule tripChatLater_merged)
  have r: "io_error modifyFailEnv VaultRead ?p = None"
    and w: "io_error modifyFailEnv VaultModify ?p = Some (js ''EBUSY: resource busy'')"
    by (simp_all add: modifyFailEnv_def)
  show ?thesis
    using v m tripNoteLater_differs
      updateExistingNote_rejected[OF v r m tripNoteLater_differs w, of 3]
    by (intro conjI) blast+
qed

text \<open>
  Claim C5, amended.  Let the path hold a note, let the vault read it, let the new messages
  be rendered without an error, and let the vault accept a \<^verbatim>\<open>modify\<close> of the note.  Then
  \<^verbatim>\<open>updateExistingNote\<close> writes the note back if and only if the merged text differs
  from the text it read (one write of the merged text, or none); it records \<open>updated\<close>
  when the text differs and \<open>skipped\<close> with the reason \<^verbatim>\<open>No changes needed\<close> when it
  does not.
\<close>

theorem merge_writes_iff_text_differs:
  assumes "vault s p = Some (TFile original)"
      and "io_error E VaultRead p = None"
      and "mergedContent E chat original = Ok merged"
      and "io_error E VaultModify p = None"
  shows "vault_writes (updateExistingNote E chat p n s)
           = vault_writes s @ (if merged \<noteq> original then [(p, merged)] else [])
       \<and> vault (updateExistingNote E chat p n s) p = Some (TFile merged)
       \<and> importReport (updateExistingNote E chat p n s)
           = (if merged \<noteq> original
              then addUpdated (titleOrUntitled chat) p (dateAndTime E (create_time chat))
                     (dateAndTime E (update_time chat)) n (importReport s)
              else addSkipped (titleOrUntitled chat) p (dateAndTime E (create_time chat))
                     (dateAndTime E (update_time chat)) n (js ''No changes needed'') (importReport s))"
  using assms by (rule updateExistingNote_merge)

text \<open>Witness for C5: the later revision adds a message and is written; the revision half
  a second later prints the same time stamp, leaves the text as it is and is skipped.\<close>

theorem merge_writes_witness:
  "vault cataloguedPlugin (js ''Nexus AI Chat Imports/2023/11/Trip.md'') = Some (TFile tripNote)
   \<and> mergedContent sampleEnv tripChatLater tripNote
       = Ok (tripNoteRestamped @ [10, 10]
             @ js ''### User, on 2023-11-14 at 22:13:20;'' @ [10] @ js ''> Thanks'' @ [10]
             @ js ''<!-- UID: m3 -->'' @ [10] @ [10, 10])
   \<and> tripNoteRestamped @ [10, 10]
         @ js ''### User, on 2023-11-14 at 22:13:20;'' @ [10] @ js ''> Thanks'' @ [10]
         @ js ''<!-- UID: m3 -->'' @ [10] @ [10, 10] \<noteq> tripNote
   \<and> vault_writes (updateExistingNote sampleEnv tripChatLater (js ''Nexus AI Chat Imports/2023/11/Trip.md'') 3 cataloguedPlugin)
       = [(js ''Nexus AI Chat Imports/2023/11/Trip.md'', tripNote),
          (js ''Nexus AI Chat Imports/2023/11/Trip.md'',
           tripNoteRestamped @ [10, 10]
             @ js ''### User, on 2023-11-14 at 22:13:20;'' @ [10] @ js ''> Thanks'' @ [10]
             @ js ''<!-- UID: m3 -->'' @ [10] @ [10, 10])]
   \<and> updated (importReport (updateExistingNote sampleEnv tripChatLater (js ''Nexus AI Chat Imports/2023/11/Trip.md'') 3 cataloguedPlugin))
       = [\<lparr>re_title = js ''Trip'', re_filePath = js ''Nexus AI Chat Imports/2023/11/Trip.md'',
           re_createDate = js ''2023-11-14 22:13:20'', re_updateDate = js ''2023-11-14 22:21:40'',
           re_messageCount = Some 3, re_reason = None, re_errorMessage = None\<rparr>]
   \<and> skipped (importReport (updateExistingNote sampleEnv tripChatLater (js ''Nexus AI Chat Imports/2023/11/Trip.md'') 3 cataloguedPlugin)) = []
   \<and> mergedContent sampleEnv tripChatTouched tripNote = Ok tripNote
   \<and> vault_writes (updateExistingNote sampleEnv tripChatTouched (js ''Nexus AI Chat Imports/2023/11/Trip.md'') 2 cataloguedPlugin)
       = [(js ''Nexus AI Chat Imports/2023/11/Trip.md'', tripNote)]
   \<and> updated (importReport (updateExistingNote sampleEnv tripChatTouched (js ''Nexus AI Chat Imports/2023/11/Trip.md'') 2 cataloguedPlugin)) = []
   \<and> skipped (importReport (updateExistingNote sampleEnv tripChatTouched (js ''Nexus AI Chat Imports/2023/11/Trip.md'') 2 cataloguedPlugin))
       = [\<lparr>re_title = js ''Trip'', re_filePath = js ''Nexus AI Chat Imports/2023/11/Trip.md'',
           re_createDate = js ''2023-11-14 22:13:20'', re_updateDate = js ''2023-11-14 22:13:20'',
           re_messageCount = Some 2, re_reason = Some (js ''No changes needed''), re_errorMessage = None\<rparr>]"
proof -
  let ?p = "js ''Nexus AI Chat Imports/2023/11/Trip.md''"
  let ?later = "tripNoteRestamped @ [10, 10]
             @ js ''### User, on 2023-11-14 at 22:13:20;'' @ [10] @ js ''> Thanks'' @ [10]
             @ js ''<!-- UID: m3 -->'' @ [10] @ [10, 10]"
  have v: "vault cataloguedPlugin ?p = Some (TFile tripNote)"
    by (simp add: cataloguedPlugin_fields)
  have io: "io_error sampleEnv VaultRead ?p = None" "io_error sampleEnv VaultModify ?p = None"
    by (simp_all add: sample_env_fields)
  note ne = tripNoteLater_differs
  note a = merge_writes_iff_text_differs[OF v io(1) tripChatLater_merged io(2), of 3]
  note b = merge_writes_iff_text_differs[OF v io(1) tripChatTouched_merged io(2), of 2]
  have d: "dateAndTime sampleEnv (create_time tripChatLater) = js ''2023-11-14 22:13:20''"
          "dateAndTime sampleEnv (update_time tripChatLater) = js ''2023-11-14 22:21:40''"
          "dateAndTime sampleEnv (create_time tripChatTouched) = js ''2023-11-14 22:13:20''"
    by (simp_all only: tripChat_fields sample_dateAndTime)
  have a1: "vault_writes (updateExistingNote sampleEnv tripChatLater ?p 3 cataloguedPlugin)
              = [(?p, tripNote), (?p, ?later)]"
    using a[THEN conjunct1] ne by (simp add: cataloguedPlugin_fields)
  have ar: "importReport (updateExistingNote sampleEnv tripChatLater ?p 3 cataloguedPlugin)
              = addUpdated (js ''Trip'') ?p (js ''2023-11-14 22:13:20'') (js ''2023-11-14 22:21:40'') 3
                  (importReport cataloguedPlugin)"
    using a[THEN conjunct2, THEN conjunct2] ne by (simp add: d tripChat_titles)
  have a2: "updated (importReport (updateExistingNote sampleEnv tripChatLater ?p 3 cataloguedPlugin))
       = [\<lparr>re_title = js ''Trip'', re_filePath = ?p,
           re_createDate = js ''2023-11-14 22:13:20'', re_updateDate = js ''2023-11-14 22:21:40'',
           re_messageCount = Some 3, re_reason = None, re_errorMessage = None\<rparr>]"
    and a3: "skipped (importReport (updateExistingNote sampleEnv tripChatLater ?p 3 cataloguedPlugin)) = []"
    unfolding ar by (simp_all add: addUpdated_def cataloguedPlugin_fields emptyReport_def)
  have b1: "vault_writes (updateExistingNote sampleEnv tripChatTouched ?p 2 cataloguedPlugin)
              = [(?p, tripNote)]"
    using b[THEN conjunct1] by (simp add: cataloguedPlugin_fields)
  have br: "importReport (updateExistingNote sampleEnv tripChatTouched ?p 2 cataloguedPlugin)
              = addSkipped (js ''Trip'') ?p (js ''2023-11-14 22:13:20'') (js ''2023-11-14 22:13:20'') 2
                  (js ''No changes needed'') (importReport cataloguedPlugin)"
    using b[THEN conjunct2, THEN conjunct2] by (simp add: d tripChatTouched_time tripChat_titles)
  have b2: "updated (importReport (updateExistingNote sampleEnv tripChatTouched ?p 2 cataloguedPlugin)) = []"
    and b3: "skipped (importReport (updateExistingNote sampleEnv tripChatTouched ?p 2 cataloguedPlugin))
       = [\<lparr>re_title = js ''Trip'', re_filePath = ?p,
           re_createDate = js ''2023-11-14 22:13:20'', re_updateDate = js ''2023-11-14 22:13:20'',
           re_messageCount = Some 2, re_reason = Some (js ''No changes needed''), re_errorMessage = None\<rparr>]"
    unfolding br by (simp_all add: addSkipped_def cataloguedPlugin_fields emptyReport_def)
  show ?thesis
    using v tripChatLater_merged ne a1 a2 a3 tripChatTouched_merged b1 b2 b3 by (intro conjI)
qed

lemma newer_revision_report:
  assumes "catalogued s (chat_id chat) = Some (Entry r)"
      and "updateTime r < update_time chat"
      and "vault s (path r) = Some (TFile original)"
      and "io_error E VaultRead (path r) = None"
      and "mergedContent E chat original = Ok merged"
      and "io_error E VaultModify (path r) = None"
  shows "importReport (processSingleChat E chat s)
           = (if merged \<noteq> original
              then addUpdated (titleOrUntitled chat) (path r) (dateAndTime E (create_time chat))
                     (dateAndTime E (update_time chat)) (validMessageCount E chat) (importReport s)
              else addSkipped (titleOrUntitled chat) (path r) (dateAndTime E (create_time chat))
                     (dateAndTime E (update_time chat)) (validMessageCount E chat)
                     (js ''No changes needed'') (importReport s))"
proof -
  let ?s1 = "s\<lparr>conversationCounters := (conversationCounters s)
                        \<lparr>totalExistingConversationsToUpdate :=
                           totalExistingConversationsToUpdate (conversationCounters s) + 1\<rparr>\<rparr>"
  have v: "vault ?s1 (path r) = Some (TFile original)" using assms(3) by simp
  have "importReport (processSingleChat E chat s)
        = importReport (updateExistingNote E chat (path r) (validMessageCount E chat) ?s1)"
    using assms(2) by (simp add: catalogued_existing[OF assms(1)] handleExistingChat_def Let_def)
  also have "\<dots> = (if merged \<noteq> original
              then addUpdated (titleOrUntitled chat) (path r) (dateAndTime E (create_time chat))
                     (dateAndTime E (update_time chat)) (validMessageCount E chat) (importReport ?s1)
              else addSkipped (titleOrUntitled chat) (path r) (dateAndTime E (create_time chat))
                     (dateAndTime E (update_time chat)) (validMessageCount E chat)
                     (js ''No changes needed'') (importReport ?s1))"
    using updateExistingNote_merge[OF v assms(4,5,6)] by blast
  finally show ?thesis by simp
qed

text \<open>
  Claim C1.  The claim asks that the catalog entry takes the conversation's
  \<open>update_time\<close> once a newer revision has been reconciled.  \<^verbatim>\<open>processSingleChat\<close>
  calls \<^verbatim>\<open>updateConversationCatalogEntry\<close> in the branch of a new conversation only:
  for a catalogued conversation the entry is what it was, so its time stays behind that
  of the conversation.
\<close>

theorem catalogued_entry_keeps_updateTime:
  assumes "conversationCatalog s (chat_id chat) = Some (Entry r)"
      and "updateTime r < update_time chat"
  shows "conversationCatalog (processSingleChat E chat s) (chat_id chat) = Some (Entry r)
       \<and> updateTime r \<noteq> update_time chat"
proof -
  have "catalogued s (chat_id chat) = Some (Entry r)"
    using assms(1) by (rule catalogued_entry)
  then have "conversationCatalog (processSingleChat E chat s) = conversationCatalog s"
    by (rule catalogued_stays)
  with assms show ?thesis by simp
qed

text \<open>Witness for C1: the note of \<open>tripChat\<close> is updated with the message of the later
  revision (one \<open>updated\<close> outcome), and the entry keeps the time 1700000000.\<close>

theorem catalog_updateTime_stale_after_update:
  "conversationCatalog cataloguedPlugin (chat_id tripChatLater)
     = Some (Entry \<lparr>conversationId = js ''c1'', path = js ''Nexus AI Chat Imports/2023/11/Trip.md'',
                     updateTime = 1700000000, provider = js ''chatgpt''\<rparr>)
   \<and> update_time tripChatLater = 1700000500
   \<and> length (updated (importReport (processSingleChat sampleEnv tripChatLater cataloguedPlugin))) = 1
   \<and> conversationCatalog (processSingleChat sampleEnv tripChatLater cataloguedPlugin) (chat_id tripChatLater)
     = Some (Entry \<lparr>conversationId = js ''c1'', path = js ''Nexus AI Chat Imports/2023/11/Trip.md'',
                     updateTime = 1700000000, provider = js ''chatgpt''\<rparr>)"
proof -
  let ?r = "\<lparr>conversationId = js ''c1'', path = js ''Nexus AI Chat Imports/2023/11/Trip.md'',
                     updateTime = 1700000000, provider = js ''chatgpt''\<rparr>"
  have c: "conversationCatalog cataloguedPlugin (chat_id tripChatLater) = Some (Entry ?r)"
    by (simp add: cataloguedPlugin_fields tripChat_fields)
  note cat = catalogued_entry[OF c]
  have t: "update_time tripChatLater = 1700000500" by (simp add: tripChat_fields)
  have v: "vault cataloguedPlugin (path ?r) = Some (TFile tripNote)"
    by (simp add: cataloguedPlugin_fields)
  have io: "io_error sampleEnv VaultRead (path ?r) = None" "io_error sampleEnv VaultModify (path ?r) = None"
    by (simp_all add: sample_env_fields)
  have lt: "updateTime ?r < update_time tripChatLater" by (simp add: t)
  have "importReport (processSingleChat sampleEnv tripChatLater cataloguedPlugin)
        = addUpdated (titleOrUntitled tripChatLater) (path ?r) (dateAndTime sampleEnv (create_time tripChatLater))
                     (dateAndTime sampleEnv (update_time tripChatLater)) (validMessageCount sampleEnv tripChatLater)
                     (importReport cataloguedPlugin)"
    using newer_revision_report[OF cat lt v io(1) tripChatLater_merged io(2)] tripNoteLater_differs
    by simp
  then have u: "length (updated (importReport (processSingleChat sampleEnv tripChatLater cataloguedPlugin))) = 1"
    by (simp add: addUpdated_def cataloguedPlugin_fields emptyReport_def)
  show ?thesis
    using c t u catalogued_entry_keeps_updateTime[OF c lt, of sampleEnv, THEN conjunct1]
    by (intro conjI)
qed

lemma missing_note_nothing: "vault s p = None \<Longrightarrow> updateExistingNote E chat p n s = s"
  by (simp add: updateExistingNote_def)

text \<open>
  Claim C2.  The claim asks for a \<open>failed\<close> outcome when the catalogued path holds no
  note.  \<^verbatim>\<open>updateExistingNote\<close> does nothing unless the path holds a file: the report
  is what it was (no \<open>failed\<close> entry, no other outcome), and no note is written.
\<close>

theorem missing_note_leaves_no_outcome:
  assumes "conversationCatalog s (chat_id chat) = Some (Entry r)"
      and "updateTime r < update_time chat"
      and "vault s (path r) = None"
  shows "importReport (processSingleChat E chat s) = importReport s
       \<and> vault (processSingleChat E chat s) = vault s
       \<and> vault_writes (processSingleChat E chat s) = vault_writes s"
  using assms
  by (simp add: catalogued_existing[OF catalogued_entry] handleExistingChat_def Let_def
        missing_note_nothing)

text \<open>Witness for C2: the note of \<open>tripChat\<close> is gone and a newer revision arrives.\<close>

theorem missing_note_witness:
  "conversationCatalog orphanedPlugin (chat_id tripChatLater)
     = Some (Entry \<lparr>conversationId = js ''c1'', path = js ''Nexus AI Chat Imports/2023/11/Trip.md'',
                     updateTime = 1700000000, provider = js ''chatgpt''\<rparr>)
   \<and> update_time tripChatLater = 1700000500
   \<and> vault orphanedPlugin (js ''Nexus AI Chat Imports/2023/11/Trip.md'') = None
   \<and> failed (importReport (processSingleChat sampleEnv tripChatLater orphanedPlugin)) = []
   \<and> skipped (importReport (processSingleChat sampleEnv tripChatLater orphanedPlugin)) = []
   \<and> updated (importReport (processSingleChat sampleEnv tripChatLater orphanedPlugin)) = []
   \<and> globalErrors (importReport (processSingleChat sampleEnv tripChatLater orphanedPlugin)) = []
   \<and> vault (processSingleChat sampleEnv tripChatLater orphanedPlugin) = Map.empty"
proof -
  let ?r = "\<lparr>conversationId = js ''c1'', path = js ''Nexus AI Chat Imports/2023/11/Trip.md'',
                     updateTime = 1700000000, provider = js ''chatgpt''\<rparr>"
  have c: "conversationCatalog orphanedPlugin (chat_id tripChatLater) = Some (Entry ?r)"
    by (simp add: orphanedPlugin_def cataloguedPlugin_fields tripChat_fields)
  have t: "update_time tripChatLater = 1700000500" by (simp add: tripChat_fields)
  have lt: "updateTime ?r < update_time tripChatLater" by (simp add: t)
  have v: "vault orphanedPlugin (path ?r) = None" by (simp add: orphanedPlugin_def)
  have r: "importReport orphanedPlugin = emptyReport\<lparr>created :=
          [\<lparr>re_title = js ''Trip'', re_filePath = js ''Nexus AI Chat Imports/2023/11/Trip.md'',
            re_createDate = js ''2023-11-14 22:13:20'', re_updateDate = js ''2023-11-14 22:13:20'',
            re_messageCount = Some 2, re_reason = None, re_errorMessage = None\<rparr>]\<rparr>"
    and e: "vault orphanedPlugin = Map.empty"
    by (simp_all add: orphanedPlugin_def cataloguedPlugin_fields)
  show ?thesis
    using missing_note_leaves_no_outcome[OF c lt v, of sampleEnv] c t v
    by (simp add: r e emptyReport_def)
qed

section \<open>A conversation that fails\<close>


lemma writeToFile_result:
  "fst (writeToFile E p c (s\<lparr>conversationCounters := x\<rparr>)) = fst (writeToFile E p c s)"
  by (simp add: writeToFile_def split: option.splits vnode.splits)


















section \<open>Order of the files of a batch\<close>

text \<open>
  Claim C7.  The claim asks for processing in the order of the export time stamps; the
  release notes say the same (files are processed in chronological order based on their
  time stamps).  \<^verbatim>\<open>selectZipFile\<close> orders the files by their whole names: of two files,
  the one whose name collates first is handled first, in whichever order they were chosen
  and whatever time stamps the names carry.
\<close>

theorem files_processed_in_name_order:
  assumes "localeCompare (file_name x) (file_name y) < 0"
      and "localeCompare (file_name y) (file_name x) > 0"
  shows "sortedFiles localeCompare [y, x] = [x, y] \<and> sortedFiles localeCompare [x, y] = [x, y]"
  using assms by (simp add: sortedFiles_def)

text \<open>Witness for C7: the export of February 2025 is handled before the export of
  January 2024, because its name starts with \<^verbatim>\<open>a\<close>.\<close>

theorem later_export_processed_first:
  "codeUnitCompare (js ''a1f3-2025-02-01-09-00-00.zip'') (js ''c9e2-2024-01-15-09-00-00.zip'') < 0
   \<and> sortedFiles codeUnitCompare
        [\<lparr>file_name = js ''c9e2-2024-01-15-09-00-00.zip''\<rparr>,
         \<lparr>file_name = js ''a1f3-2025-02-01-09-00-00.zip''\<rparr>]
       = [\<lparr>file_name = js ''a1f3-2025-02-01-09-00-00.zip''\<rparr>,
          \<lparr>file_name = js ''c9e2-2024-01-15-09-00-00.zip''\<rparr>]"
proof -
  let ?x = "\<lparr>file_name = js ''a1f3-2025-02-01-09-00-00.zip''\<rparr>"
  let ?y = "\<lparr>file_name = js ''c9e2-2024-01-15-09-00-00.zip''\<rparr>"
  have c: "codeUnitCompare (file_name ?x) (file_name ?y) < 0"
    and d: "codeUnitCompare (file_name ?y) (file_name ?x) > 0"
    by (simp_all add: js_def)
  show ?thesis
    using files_processed_in_name_order[of codeUnitCompare ?x ?y, OF c d] c by simp
qed

end
